theory Spec2Isabelle
  imports Main "HOL-Library.Word" "HOL-Library.Signed_Division"
begin

unbundle bit_operations_syntax

section \<open>Machine integers and byte order\<close>

type_synonym u8 = "8 word"
type_synonym u16 = "16 word"
type_synonym u32 = "32 word"
type_synonym u64 = "64 word"

text \<open>
  A C \<open>int\<close> is 32 bits wide. Values of type \<open>int\<close> are kept as HOL integers and
  \<open>to_int\<close> is the conversion of an arbitrary integer to \<open>int\<close>: the low 32 bits, read
  as two's complement. It is applied wherever the C code converts a wider or unsigned
  value to \<open>int\<close>, and to the result of every \<open>int\<close> operation that can leave the range
  (the usual wrap-around of the compiled code).
\<close>

definition to_int :: "int \<Rightarrow> int" where
  "to_int x = signed_take_bit 31 x"

text \<open>
  Modelled from the spec: \<open>ntohs\<close>, \<open>ntohl\<close>, \<open>ntohll\<close> and their \<open>hton\<close> twins come from
  headers that are not part of the sources. All multi-byte wire fields are big-endian;
  the host is little-endian, so each conversion reverses the bytes of its argument.
\<close>

definition ntohs :: "u16 \<Rightarrow> u16" where
  "ntohs w = push_bit 8 w OR drop_bit 8 w"

definition ntohl :: "u32 \<Rightarrow> u32" where
  "ntohl w = push_bit 24 w OR (push_bit 8 w AND 0xFF0000)
               OR (drop_bit 8 w AND 0xFF00) OR drop_bit 24 w"

definition ntohll :: "u64 \<Rightarrow> u64" where
  "ntohll w = push_bit 32 (ucast (ntohl (ucast w))) OR ucast (ntohl (ucast (drop_bit 32 w)))"

definition htons :: "u16 \<Rightarrow> u16" where
  "htons w = ntohs w"

definition htonl :: "u32 \<Rightarrow> u32" where
  "htonl w = ntohl w"

definition htonll :: "u64 \<Rightarrow> u64" where
  "htonll w = ntohll w"

section \<open>Spanning tree: data model (stp.c)\<close>

text \<open>
  \<open>struct stp_config\<close>: the configuration BPDU. The header fields and the timing
  fields are carried along; the four priority fields are the ones the handler reads.
\<close>

record stp_config =
  config_proto_id :: u16
  config_version :: u8
  config_msg_type :: u8
  config_flags :: u8
  config_root_id :: u64
  config_root_path_cost :: u32
  config_switch_id :: u64
  config_port_id :: u16
  config_msg_age :: u16
  config_max_age :: u16
  config_hello_time :: u16
  config_fwd_delay :: u16

text \<open>\<open>stp_port_t\<close>: one port of the bridge.\<close>

record stp_port_t =
  port_id :: u16
  path_cost :: u32
  designated_root :: u64
  designated_switch :: u64
  designated_port :: u16
  designated_cost :: u32

text \<open>
  \<open>stp_t\<close>: the bridge. \<open>root_port\<close> is a pointer to one of the bridge's own ports or
  \<open>NULL\<close>; here it is the index of that port in \<open>ports\<close>, or \<open>None\<close>. \<open>nports\<close> is the
  length of \<open>ports\<close>.
\<close>

record stp_t =
  switch_id :: u64
  stp_designated_root :: u64
  root_path_cost :: u32
  root_port :: "nat option"
  ports :: "stp_port_t list"

text \<open>
  The process state seen by the handler: the bridge and the function-local
  \<open>static int root = 1\<close> of \<open>stp_handle_config_packet\<close>, which lives as long as the
  process.
\<close>

record stp_world =
  stp :: stp_t
  root :: int

text \<open>
  The constants of \<open>stp.h\<close> that are written into an outgoing BPDU; the header is not
  part of the sources, so they are parameters.
\<close>

record stp_constants =
  STP_PROTOCOL_ID :: u16
  STP_PROTOCOL_VERSION :: u8
  STP_TYPE_CONFIG :: u8
  STP_MAX_AGE :: u16
  STP_HELLO_TIME :: u16
  STP_FWD_DELAY :: u16

text \<open>
  What the handler does to the outside: a call of \<open>stp_stop_timer\<close> on the hello timer,
  or a configuration BPDU handed to \<open>stp_port_send_packet\<close> for the port with the given
  index (which wraps it in the Ethernet and LLC headers and sends it on the port's
  interface). \<open>print_info\<close> only writes to standard output and leaves no event.
\<close>

datatype stp_event =
  Stop_hello_timer
  | Send_config nat stp_config

section \<open>Spanning tree: operations\<close>

definition stp_is_root_switch :: "stp_t \<Rightarrow> bool" where
  "stp_is_root_switch s \<longleftrightarrow> stp_designated_root s = switch_id s"

definition stp_port_is_designated :: "stp_t \<Rightarrow> stp_port_t \<Rightarrow> bool" where
  "stp_port_is_designated s p \<longleftrightarrow>
     designated_switch p = switch_id s \<and> designated_port p = port_id p"

definition build_config :: "stp_constants \<Rightarrow> stp_t \<Rightarrow> stp_port_t \<Rightarrow> stp_config" where
  "build_config k s p =
     \<lparr> config_proto_id = htons (STP_PROTOCOL_ID k),
       config_version = STP_PROTOCOL_VERSION k,
       config_msg_type = STP_TYPE_CONFIG k,
       config_flags = 0,
       config_root_id = htonll (stp_designated_root s),
       config_root_path_cost = htonl (root_path_cost s),
       config_switch_id = htonll (switch_id s),
       config_port_id = htons (port_id p),
       config_msg_age = htons 0,
       config_max_age = htons (STP_MAX_AGE k),
       config_hello_time = htons (STP_HELLO_TIME k),
       config_fwd_delay = htons (STP_FWD_DELAY k) \<rparr>"

text \<open>
  \<open>stp_port_send_config\<close>: a bridge that is neither root nor has a root port sends
  nothing.
\<close>

definition stp_port_send_config :: "stp_constants \<Rightarrow> stp_t \<Rightarrow> nat \<Rightarrow> stp_event list" where
  "stp_port_send_config k s i =
     (if \<not> stp_is_root_switch s \<and> root_port s = None then []
      else [Send_config i (build_config k s (ports s ! i))])"

text \<open>\<open>stp_send_config\<close>: the loop over \<open>i = 0 .. nports - 1\<close>.\<close>

definition stp_send_config :: "stp_constants \<Rightarrow> stp_t \<Rightarrow> stp_event list" where
  "stp_send_config k s =
     concat (map (\<lambda>i. if stp_port_is_designated s (ports s ! i)
                       then stp_port_send_config k s i else [])
                 [0 ..< length (ports s)])"

text \<open>
  \<open>get_port_priority\<close>. Every difference is assigned to \<open>int tmp\<close>: the 64-bit and
  32-bit unsigned differences are computed modulo their width and then converted to
  \<open>int\<close>; the two 16-bit port ids are promoted to \<open>int\<close> before the subtraction.
  \<open>w * tmp/abs(tmp)\<close> parses as \<open>(w * tmp) / abs(tmp)\<close>, with C's truncating division.
\<close>

definition signum_term :: "int \<Rightarrow> int \<Rightarrow> int" where
  "signum_term w tmp = to_int (w * tmp) sdiv to_int \<bar>tmp\<bar>"

definition add_term :: "int \<Rightarrow> int \<Rightarrow> int \<Rightarrow> int" where
  "add_term priority w tmp =
     (if tmp \<noteq> 0 then to_int (priority + signum_term w tmp) else priority)"

definition get_port_priority :: "stp_config \<Rightarrow> stp_port_t \<Rightarrow> int" where
  "get_port_priority config p =
     (let priority = 0;
          priority = add_term priority 8
            (to_int (uint (config_root_id config - designated_root p)));
          priority = add_term priority 4
            (to_int (uint (config_root_path_cost config - designated_cost p)));
          priority = add_term priority 2
            (to_int (uint (config_switch_id config - designated_switch p)));
          priority = add_term priority 1
            (uint (config_port_id config) - uint (designated_port p))
      in priority)"

text \<open>The in-place conversion of the four priority fields to host order.\<close>

definition config_to_host :: "stp_config \<Rightarrow> stp_config" where
  "config_to_host config =
     config\<lparr> config_root_id := ntohll (config_root_id config),
             config_root_path_cost := ntohl (config_root_path_cost config),
             config_switch_id := ntohll (config_switch_id config),
             config_port_id := ntohs (config_port_id config) \<rparr>"

text \<open>The three pieces of the handler's last branch, in source order.\<close>

definition change_to_non_root :: "stp_world \<Rightarrow> stp_world \<times> stp_event list" where
  "change_to_non_root w =
     (if root w = 1 then (w\<lparr> root := 0 \<rparr>, [Stop_hello_timer]) else (w, []))"

definition update_config_info :: "stp_config \<Rightarrow> stp_port_t \<Rightarrow> stp_port_t" where
  "update_config_info config p =
     p\<lparr> designated_port := config_port_id config,
        designated_switch := config_switch_id config,
        designated_cost := config_root_path_cost config,
        designated_root := config_root_id config \<rparr>"

definition update_port_info :: "stp_t \<Rightarrow> stp_port_t \<Rightarrow> stp_port_t \<Rightarrow> stp_port_t" where
  "update_port_info s p q =
     (if port_id q \<noteq> port_id p
      then q\<lparr> designated_cost := root_path_cost s,
              designated_root := stp_designated_root s \<rparr>
      else q)"

definition change_root_port :: "stp_constants \<Rightarrow> stp_t \<Rightarrow> nat \<Rightarrow> stp_config
    \<Rightarrow> stp_t \<times> stp_event list" where
  "change_root_port k s i config =
     (let p = ports s ! i;
          s = s\<lparr> root_port := Some i,
                 stp_designated_root := config_root_id config,
                 root_path_cost := designated_cost p + path_cost p \<rparr>;
          s = s\<lparr> ports := map (update_port_info s p) (ports s) \<rparr>
      in (s, stp_send_config k s))"

text \<open>
  \<open>stp_handle_config_packet\<close> for the port with index \<open>i\<close>. The configuration arrives
  in wire order.
\<close>

definition stp_handle_config_packet :: "stp_constants \<Rightarrow> stp_world \<Rightarrow> nat \<Rightarrow> stp_config
    \<Rightarrow> stp_world \<times> stp_event list" where
  "stp_handle_config_packet k w i wire =
     (let config = config_to_host wire;
          s = stp w;
          p = ports s ! i;
          priority = get_port_priority config p
      in if 0 < priority then
           (w\<lparr> stp := s\<lparr> ports := (ports s)
                  [i := p\<lparr> designated_port := port_id p,
                            designated_switch := switch_id s \<rparr>] \<rparr> \<rparr>, [])
         else if priority = 0 then (w, stp_send_config k s)
         else
           let (w, stopped) = change_to_non_root w;
               s = s\<lparr> ports := (ports s)[i := update_config_info config p] \<rparr>
           in if (case root_port s of
                    None \<Rightarrow> False
                  | Some r \<Rightarrow> 0 \<le> get_port_priority config (ports s ! r))
              then (w\<lparr> stp := s \<rparr>, stopped)
              else let (s, sent) = change_root_port k s i config
                   in (w\<lparr> stp := s \<rparr>, stopped @ sent))"

section \<open>mOSPF: data model\<close>

text \<open>
  The structures are declared in headers that are not part of the sources; their fields
  are the ones \<open>mospf_daemon.c\<close> reads and writes, with the widths the wire formats and
  the byte-order conversions applied to them give. A MAC address is six bytes.
\<close>

type_synonym mac = "u8 list"

record mospf_lsa =
  lsa_subnet :: u32
  lsa_mask :: u32
  lsa_rid :: u32

text \<open>
  \<open>mospf_db_entry_t\<close>. \<open>db_array\<close> is the memory \<open>array\<close> points to, an element per
  LSA; \<open>db_nadv\<close> is the stored count, kept separately as in the C structure.
\<close>

record mospf_db_entry_t =
  db_rid :: u32
  db_seq :: u16
  db_nadv :: u32
  db_array :: "mospf_lsa list"

record mospf_nbr_t =
  nbr_id :: u32
  nbr_ip :: u32
  nbr_mask :: u32
  alive :: int

record iface_info_t =
  iface_ip :: u32
  iface_mask :: u32
  iface_mac :: mac
  helloint :: int
  num_nbr :: int
  nbr_list :: "mospf_nbr_t list"

text \<open>\<open>ustack_t\<close>, the type of the global \<open>instance\<close>.\<close>

record ustack_t =
  router_id :: u32
  area_id :: u32
  sequence_num :: u16
  lsuint :: int
  iface_list :: "iface_info_t list"

text \<open>A routing table row; \<open>rt_iface\<close> is the index of the interface or \<open>None\<close> for \<open>NULL\<close>.\<close>

record rt_entry_t =
  rt_dest :: u32
  rt_mask :: u32
  rt_gw :: u32
  rt_dist :: int
  rt_iface :: "nat option"

text \<open>The globals of the daemon: \<open>instance\<close>, \<open>mospf_db\<close>, \<open>nbr_changed\<close> and \<open>rtable\<close>.\<close>

record mospf_world =
  ustack :: ustack_t
  mospf_db :: "mospf_db_entry_t list"
  nbr_changed :: int
  rtable :: "rt_entry_t list"

text \<open>
  A frame as the daemon sees it: Ethernet header, IPv4 header without options, mOSPF
  header, then the Hello or the LSU body. Fields hold the bytes of the buffer, so
  multi-byte protocol fields are in wire order. In the LSU body \<open>ttl\<close> is a single byte
  followed by the byte \<open>unused\<close>: the emitter stores both without a byte-order
  conversion and the body is \<open>MOSPF_LSU_SIZE\<close> = 8 bytes long.
\<close>

record mospf_packet =
  ether_dhost :: mac
  ether_shost :: mac
  ether_type :: u16
  ip_version :: u8
  ip_ihl :: u8
  ip_tos :: u8
  ip_tot_len :: u16
  ip_id :: u16
  ip_frag_off :: u16
  ip_ttl :: u8
  ip_protocol :: u8
  ip_hdr_checksum :: u16
  ip_saddr :: u32
  ip_daddr :: u32
  mospf_version :: u8
  mospf_type :: u8
  mospf_len :: u16
  mospf_rid :: u32
  mospf_aid :: u32
  mospf_hdr_checksum :: u16
  mospf_padding :: u16

record hello_packet = mospf_packet +
  hello_mask :: u32
  hello_helloint :: u16
  hello_padding :: u16

record lsu_packet = mospf_packet +
  lsu_seq :: u16
  lsu_ttl :: u8
  lsu_unused :: u8
  lsu_nadv :: u32
  lsu_lsas :: "mospf_lsa list"

text \<open>
  What the host provides and the headers define, as parameters: the two checksum
  functions (\<open>ip.h\<close>, \<open>mospf_proto.h\<close>), the value \<open>rand()\<close> returns for the IP
  identification, the distance a row gets from \<open>new_rt_entry\<close>, and the constants whose
  values the sources do not show.
\<close>

record mospf_host =
  ip_checksum :: "lsu_packet \<Rightarrow> u16"
  mospf_checksum :: "lsu_packet \<Rightarrow> u16"
  rand :: int
  new_rt_entry_dist :: int
  MOSPF_NEIGHBOR_TIMEOUT :: int
  MOSPF_MAX_LSU_TTL :: u8
  DEFAULT_TTL :: u8
  MAX_DIST :: int
  BAD_GW :: u32

text \<open>
  Modelled from the spec: the protocol constants of section 6 (version 2, LSU type 4,
  IP protocol 90 is written as a literal in the source) and the sizes of the wire
  formats given there; \<open>ETH_P_IP\<close> and \<open>IP_DF\<close> are the standard values.
\<close>

definition MOSPF_VERSION :: u8 where "MOSPF_VERSION = 2"
definition MOSPF_TYPE_LSU :: u8 where "MOSPF_TYPE_LSU = 4"
definition ETH_P_IP :: u16 where "ETH_P_IP = 0x0800"
definition IP_DF :: u16 where "IP_DF = 0x4000"
definition ETHER_HDR_SIZE :: int where "ETHER_HDR_SIZE = 14"
definition IP_BASE_HDR_SIZE :: int where "IP_BASE_HDR_SIZE = 20"
definition MOSPF_HDR_SIZE :: int where "MOSPF_HDR_SIZE = 16"
definition MOSPF_LSU_SIZE :: int where "MOSPF_LSU_SIZE = 8"
definition MOSPF_LSA_SIZE :: int where "MOSPF_LSA_SIZE = 12"

text \<open>
  A call of \<open>iface_send_packet_by_arp\<close>: the index of the interface, the destination
  address and the frame handed over.
\<close>

type_synonym lsu_send = "nat \<times> u32 \<times> lsu_packet"

section \<open>mOSPF: Hello ingestion\<close>

text \<open>
  The loop over the neighbour list of the arrival interface: the first neighbour with
  the sender's router id gets its \<open>alive\<close> reset; \<open>None\<close> when the loop ends without a
  match.
\<close>

fun refresh_nbr :: "int \<Rightarrow> u32 \<Rightarrow> mospf_nbr_t list \<Rightarrow> mospf_nbr_t list option" where
  "refresh_nbr timeout rid [] = None"
| "refresh_nbr timeout rid (nbr # rest) =
     (if nbr_id nbr = rid then Some (nbr\<lparr> alive := timeout \<rparr> # rest)
      else map_option ((#) nbr) (refresh_nbr timeout rid rest))"

definition handle_mospf_hello :: "mospf_host \<Rightarrow> mospf_world \<Rightarrow> nat \<Rightarrow> hello_packet
    \<Rightarrow> mospf_world" where
  "handle_mospf_hello h w i packet =
     (let ifaces = iface_list (ustack w);
          iface = ifaces ! i
      in case refresh_nbr (MOSPF_NEIGHBOR_TIMEOUT h) (ntohl (mospf_rid packet)) (nbr_list iface) of
           Some nbrs \<Rightarrow>
             w\<lparr> ustack := (ustack w)\<lparr> iface_list := ifaces[i := iface\<lparr> nbr_list := nbrs \<rparr>] \<rparr> \<rparr>
         | None \<Rightarrow>
             let nbr = \<lparr> nbr_id = ntohl (mospf_rid packet),
                         nbr_ip = ntohl (ip_saddr packet),
                         nbr_mask = ntohl (hello_mask packet),
                         alive = MOSPF_NEIGHBOR_TIMEOUT h \<rparr>;
                 iface = iface\<lparr> nbr_list := nbr_list iface @ [nbr],
                               num_nbr := to_int (num_nbr iface + 1) \<rparr>
             in w\<lparr> ustack := (ustack w)\<lparr> iface_list := ifaces[i := iface] \<rparr>,
                   nbr_changed := 1 \<rparr>)"

section \<open>mOSPF: LSU ingestion and flooding\<close>

text \<open>
  The lookup loop of the link-state database: the index of the first entry with the
  given router id.
\<close>

fun find_db :: "u32 \<Rightarrow> mospf_db_entry_t list \<Rightarrow> nat option" where
  "find_db rid [] = None"
| "find_db rid (db # rest) =
     (if db_rid db = rid then Some 0 else map_option Suc (find_db rid rest))"

definition lsa_ntoh :: "mospf_lsa \<Rightarrow> mospf_lsa" where
  "lsa_ntoh lsa = \<lparr> lsa_subnet = ntohl (lsa_subnet lsa), lsa_mask = ntohl (lsa_mask lsa),
                    lsa_rid = ntohl (lsa_rid lsa) \<rparr>"

definition lsa_hton :: "mospf_lsa \<Rightarrow> mospf_lsa" where
  "lsa_hton lsa = \<lparr> lsa_subnet = htonl (lsa_subnet lsa), lsa_mask = htonl (lsa_mask lsa),
                    lsa_rid = htonl (lsa_rid lsa) \<rparr>"

text \<open>
  The decoding loop \<open>for(int i = ntohl(lsu->nadv); i > 0; i--, lsa++, lsa_tmp++)\<close>: the
  count is converted to \<open>int\<close>, so a count with the top bit set runs the loop zero
  times. Reading more LSAs than the buffer holds is a read past the packet and has no
  defined result: \<open>None\<close>.
\<close>

definition decode_count :: "u32 \<Rightarrow> nat" where
  "decode_count nadv = (if 0 < sint nadv then unat nadv else 0)"

definition decode_lsas :: "nat \<Rightarrow> mospf_lsa list \<Rightarrow> mospf_lsa list option" where
  "decode_lsas n lsas = (if n \<le> length lsas then Some (map lsa_ntoh (take n lsas)) else None)"

text \<open>
  \<open>memcpy\<close> of the headers and \<open>db->nadv\<close> LSAs out of the received buffer into a
  fresh one.
\<close>

definition clone_packet :: "lsu_packet \<Rightarrow> u32 \<Rightarrow> lsu_packet option" where
  "clone_packet packet nadv =
     (if unat nadv \<le> length (lsu_lsas packet)
      then Some (packet\<lparr> lsu_lsas := take (unat nadv) (lsu_lsas packet) \<rparr>) else None)"

text \<open>
  The inner flooding loop over the neighbours of one interface other than the arrival
  interface. The clone is copied from the received buffer first; \<open>ip\<close> is redeclared
  for the clone, \<open>eth\<close> is not, so the source MAC is written into the received buffer.
\<close>

fun flood_nbrs :: "mospf_host \<Rightarrow> u32 \<Rightarrow> nat \<Rightarrow> iface_info_t \<Rightarrow> lsu_packet
    \<Rightarrow> mospf_nbr_t list \<Rightarrow> (lsu_packet \<times> lsu_send list) option" where
  "flood_nbrs h nadv j iface_tmp packet [] = Some (packet, [])"
| "flood_nbrs h nadv j iface_tmp packet (nbr # rest) =
     (case clone_packet packet nadv of
        None \<Rightarrow> None
      | Some iface_packet \<Rightarrow>
          let iface_packet = iface_packet\<lparr> ip_daddr := htonl (nbr_ip nbr) \<rparr>;
              iface_packet = iface_packet\<lparr> ip_saddr := htonl (iface_ip iface_tmp) \<rparr>;
              iface_packet = iface_packet\<lparr> ip_hdr_checksum := ip_checksum h iface_packet \<rparr>;
              packet = packet\<lparr> ether_shost := iface_mac iface_tmp \<rparr>
          in case flood_nbrs h nadv j iface_tmp packet rest of
               None \<Rightarrow> None
             | Some (packet, sent) \<Rightarrow> Some (packet, (j, nbr_ip nbr, iface_packet) # sent))"

text \<open>
  The outer loop over the interface list; \<open>j\<close> is the index of the head of the
  remaining list, \<open>i\<close> the index of the arrival interface.
\<close>

fun flood_ifaces :: "mospf_host \<Rightarrow> u32 \<Rightarrow> nat \<Rightarrow> nat \<Rightarrow> lsu_packet
    \<Rightarrow> iface_info_t list \<Rightarrow> (lsu_packet \<times> lsu_send list) option" where
  "flood_ifaces h nadv i j packet [] = Some (packet, [])"
| "flood_ifaces h nadv i j packet (iface_tmp # rest) =
     (case (if j \<noteq> i then flood_nbrs h nadv j iface_tmp packet (nbr_list iface_tmp)
            else Some (packet, [])) of
        None \<Rightarrow> None
      | Some (packet, sent) \<Rightarrow>
          (case flood_ifaces h nadv i (Suc j) packet rest of
             None \<Rightarrow> None
           | Some (packet, sent') \<Rightarrow> Some (packet, sent @ sent')))"

text \<open>
  \<open>handle_mospf_lsu\<close> for a frame that arrived on the interface with index \<open>i\<close>.
  \<open>fresh\<close> is the content of the memory \<open>malloc\<close> returns for a new database entry:
  only \<open>rid\<close> and \<open>seq\<close> are assigned before the sequence test. The result is the new
  state, the received buffer (it is changed in place) and the frames sent.
\<close>

definition handle_mospf_lsu :: "mospf_host \<Rightarrow> mospf_db_entry_t \<Rightarrow> mospf_world \<Rightarrow> nat
    \<Rightarrow> lsu_packet \<Rightarrow> (mospf_world \<times> lsu_packet \<times> lsu_send list) option" where
  "handle_mospf_lsu h fresh w i packet =
     (let rid = ntohl (mospf_rid packet);
          (dbs, n) = (case find_db rid (mospf_db w) of
                        Some n \<Rightarrow> (mospf_db w, n)
                      | None \<Rightarrow> (mospf_db w @ [fresh\<lparr> db_rid := rid, db_seq := 0 \<rparr>],
                                 length (mospf_db w)));
          db = dbs ! n
      in if db_seq db < ntohs (lsu_seq packet) then
           (case decode_lsas (decode_count (ntohl (lsu_nadv packet))) (lsu_lsas packet) of
              None \<Rightarrow> None
            | Some array \<Rightarrow>
                let db = db\<lparr> db_seq := ntohs (lsu_seq packet),
                             db_nadv := ntohl (lsu_nadv packet),
                             db_array := array \<rparr>;
                    w = w\<lparr> mospf_db := dbs[n := db] \<rparr>;
                    packet = packet\<lparr> lsu_ttl := lsu_ttl packet - 1 \<rparr>;
                    packet = packet\<lparr> ip_ttl := ip_ttl packet - 1 \<rparr>;
                    packet = packet\<lparr> mospf_hdr_checksum := mospf_checksum h packet \<rparr>
                in case flood_ifaces h (db_nadv db) i 0 packet (iface_list (ustack w)) of
                     None \<Rightarrow> None
                   | Some (packet, sent) \<Rightarrow> Some (w, packet, sent))
         else Some (w\<lparr> mospf_db := dbs \<rparr>, packet, []))"

section \<open>mOSPF: shortest paths and the routing table\<close>

text \<open>
  Modelled from the spec: \<open>clear_rtable\<close>, \<open>init_rtable\<close> and \<open>add_rt_entry\<close> belong to
  the routing table module, which is not part of the sources. The table is a list of
  rows; clearing removes every row, initialising sets up the empty list, adding appends
  a row at the tail. \<open>new_rt_entry\<close> fills a new row from its four arguments.
\<close>

definition clear_rtable :: "rt_entry_t list \<Rightarrow> rt_entry_t list" where
  "clear_rtable rt = []"

definition init_rtable :: "rt_entry_t list \<Rightarrow> rt_entry_t list" where
  "init_rtable rt = []"

definition add_rt_entry :: "rt_entry_t \<Rightarrow> rt_entry_t list \<Rightarrow> rt_entry_t list" where
  "add_rt_entry rt rows = rows @ [rt]"

definition new_rt_entry :: "mospf_host \<Rightarrow> u32 \<Rightarrow> u32 \<Rightarrow> u32 \<Rightarrow> nat option \<Rightarrow> rt_entry_t" where
  "new_rt_entry h dest netmask gw iface =
     \<lparr> rt_dest = dest, rt_mask = netmask, rt_gw = gw, rt_dist = new_rt_entry_dist h,
       rt_iface = iface \<rparr>"

text \<open>
  What \<open>generate_rt\<close> can run into: a read of \<open>array[i]\<close> beyond the memory the entry
  holds, a write of \<open>graph[k][j]\<close> with the given indices outside the matrix, and the
  use of \<open>->mask\<close> on a \<open>NULL\<close> interface.
\<close>

datatype rt_error =
  Array_read_out_of_bounds
  | Graph_write_out_of_bounds nat nat
  | Null_iface_deref

record dist_entry =
  dist_rid :: u32
  dist_visited :: int
  dist_dist :: int
  dist_gw :: u32

text \<open>
  \<open>gw_to_iface\<close> and \<open>subnet_to_iface\<close>; the interface is returned as its index, \<open>j\<close>
  being the index of the head of the list.
\<close>

fun gw_to_iface_from :: "nat \<Rightarrow> iface_info_t list \<Rightarrow> u32 \<Rightarrow> nat option" where
  "gw_to_iface_from j [] gw = None"
| "gw_to_iface_from j (iface # rest) gw =
     (if \<exists>nbr \<in> set (nbr_list iface). nbr_id nbr = gw then Some j
      else gw_to_iface_from (Suc j) rest gw)"

definition gw_to_iface :: "mospf_world \<Rightarrow> u32 \<Rightarrow> nat option" where
  "gw_to_iface w gw = gw_to_iface_from 0 (iface_list (ustack w)) gw"

fun subnet_to_iface_from :: "nat \<Rightarrow> iface_info_t list \<Rightarrow> u32 \<Rightarrow> nat option" where
  "subnet_to_iface_from j [] subnet = None"
| "subnet_to_iface_from j (iface # rest) subnet =
     (if iface_ip iface AND iface_mask iface = subnet then Some j
      else subnet_to_iface_from (Suc j) rest subnet)"

definition subnet_to_iface :: "mospf_world \<Rightarrow> u32 \<Rightarrow> nat option" where
  "subnet_to_iface w subnet = subnet_to_iface_from 0 (iface_list (ustack w)) subnet"

text \<open>
  The first loop: \<open>rnum\<close> is the number of entries, \<open>self_db\<close> the last entry whose
  router id is the local one (the loop does not stop at a match).
\<close>

definition find_self_db :: "u32 \<Rightarrow> mospf_db_entry_t list \<Rightarrow> mospf_db_entry_t option" where
  "find_self_db rid dbs = foldl (\<lambda>self_db db. if db_rid db = rid then Some db else self_db) None dbs"

text \<open>
  The search \<open>for(i = 0; i < self_db->nadv; i++) if(tmp->rid == self_db->array[i].rid)\<close>,
  with \<open>n\<close> the iterations left and the list the memory from \<open>array + i\<close> on.
\<close>

fun self_advertises :: "u32 \<Rightarrow> nat \<Rightarrow> mospf_lsa list \<Rightarrow> rt_error + bool" where
  "self_advertises rid 0 array = Inr False"
| "self_advertises rid (Suc n) [] = Inl Array_read_out_of_bounds"
| "self_advertises rid (Suc n) (lsa # array) =
     (if rid = lsa_rid lsa then Inr True else self_advertises rid n array)"

definition init_dist_entry :: "mospf_host \<Rightarrow> u32 \<Rightarrow> mospf_db_entry_t \<Rightarrow> mospf_db_entry_t
    \<Rightarrow> rt_error + dist_entry" where
  "init_dist_entry h router self_db db =
     (if db_rid db = router
      then Inr \<lparr> dist_rid = db_rid db, dist_visited = 1, dist_dist = 0, dist_gw = 0 \<rparr>
      else case self_advertises (db_rid db) (unat (db_nadv self_db)) (db_array self_db) of
             Inl e \<Rightarrow> Inl e
           | Inr True \<Rightarrow>
               Inr \<lparr> dist_rid = db_rid db, dist_visited = 0, dist_dist = 1, dist_gw = db_rid db \<rparr>
           | Inr False \<Rightarrow>
               Inr \<lparr> dist_rid = db_rid db, dist_visited = 0, dist_dist = MAX_DIST h,
                     dist_gw = BAD_GW h \<rparr>)"

fun init_dist :: "mospf_host \<Rightarrow> u32 \<Rightarrow> mospf_db_entry_t \<Rightarrow> mospf_db_entry_t list
    \<Rightarrow> rt_error + dist_entry list" where
  "init_dist h router self_db [] = Inr []"
| "init_dist h router self_db (db # rest) =
     (case init_dist_entry h router self_db db of
        Inl e \<Rightarrow> Inl e
      | Inr tmp \<Rightarrow>
          (case init_dist h router self_db rest of
             Inl e \<Rightarrow> Inl e
           | Inr dist \<Rightarrow> Inr (tmp # dist)))"

text \<open>
  The column search of the graph phase: \<open>j\<close> counts the entries passed before the first
  one with the LSA's router id, and is the number of entries when there is none.
\<close>

fun graph_column :: "u32 \<Rightarrow> mospf_db_entry_t list \<Rightarrow> nat" where
  "graph_column rid [] = 0"
| "graph_column rid (db1 # rest) = (if rid = db_rid db1 then 0 else Suc (graph_column rid rest))"

text \<open>
  The writes \<open>graph[k][j] = 1\<close> for the LSAs of entry \<open>k\<close>, with \<open>n\<close> the iterations left.
  The matrix is \<open>u32 graph[rnum][rnum]\<close>; a write with \<open>j = rnum\<close> is outside its row.
\<close>

fun graph_row :: "mospf_db_entry_t list \<Rightarrow> nat \<Rightarrow> nat \<Rightarrow> mospf_lsa list \<Rightarrow> u32 list list
    \<Rightarrow> rt_error + u32 list list" where
  "graph_row dbs k 0 lsa graph = Inr graph"
| "graph_row dbs k (Suc n) [] graph = Inl Array_read_out_of_bounds"
| "graph_row dbs k (Suc n) (l # lsa) graph =
     (let j = graph_column (lsa_rid l) dbs
      in if j < length dbs
         then graph_row dbs k n lsa (graph[k := (graph ! k)[j := 1]])
         else Inl (Graph_write_out_of_bounds k j))"

fun graph_rows :: "mospf_db_entry_t list \<Rightarrow> nat \<Rightarrow> mospf_db_entry_t list \<Rightarrow> u32 list list
    \<Rightarrow> rt_error + u32 list list" where
  "graph_rows dbs k [] graph = Inr graph"
| "graph_rows dbs k (db # rest) graph =
     (case graph_row dbs k (unat (db_nadv db)) (db_array db) graph of
        Inl e \<Rightarrow> Inl e
      | Inr graph \<Rightarrow> graph_rows dbs (Suc k) rest graph)"

definition init_graph :: "mospf_db_entry_t list \<Rightarrow> rt_error + u32 list list" where
  "init_graph dbs =
     graph_rows dbs 0 dbs (replicate (length dbs) (replicate (length dbs) 0))"

text \<open>
  The index pairs of the writes \<open>graph[k][j] = 1\<close> in the order the loops make them,
  whether or not they fall inside the matrix.
\<close>

definition graph_writes :: "mospf_db_entry_t list \<Rightarrow> (nat \<times> nat) list" where
  "graph_writes dbs =
     concat (map (\<lambda>(k, db). map (\<lambda>l. (k, graph_column (lsa_rid l) dbs))
                                (take (unat (db_nadv db)) (db_array db)))
                 (zip [0 ..< length dbs] dbs))"

text \<open>
  Dijkstra's main loop. \<open>find_min\<close> is the scan for the closest unvisited router,
  \<open>relax\<close> the update of the neighbours of \<open>min_j\<close>; \<open>graph[min_j][j] + dist[min_j].dist\<close>
  is an unsigned sum and is compared as unsigned.
\<close>

fun find_min :: "dist_entry list \<Rightarrow> nat \<Rightarrow> int \<times> nat \<Rightarrow> int \<times> nat" where
  "find_min [] j (min_dist, min_j) = (min_dist, min_j)"
| "find_min (d # rest) j (min_dist, min_j) =
     find_min rest (Suc j)
       (if dist_visited d = 0 \<and> dist_dist d < min_dist then (dist_dist d, j)
        else (min_dist, min_j))"

definition relax :: "u32 list \<Rightarrow> dist_entry \<Rightarrow> u32 \<times> dist_entry \<Rightarrow> dist_entry" where
  "relax row m = (\<lambda>(g, d).
     if g \<noteq> 0 \<and> dist_visited d = 0
        \<and> g + word_of_int (dist_dist m) < (word_of_int (dist_dist d) :: u32)
     then d\<lparr> dist_dist := sint (g + word_of_int (dist_dist m)),
             dist_gw := (if dist_gw m \<noteq> 0 then dist_gw m else dist_rid m) \<rparr>
     else d)"

definition dijkstra_step :: "mospf_host \<Rightarrow> u32 list list \<Rightarrow> dist_entry list \<Rightarrow> dist_entry list" where
  "dijkstra_step h graph dist =
     (let (min_dist, min_j) = find_min dist 0 (MAX_DIST h, 0);
          dist = dist[min_j := (dist ! min_j)\<lparr> dist_visited := 1 \<rparr>]
      in map (relax (graph ! min_j) (dist ! min_j)) (zip (graph ! min_j) dist))"

fun dijkstra :: "mospf_host \<Rightarrow> u32 list list \<Rightarrow> nat \<Rightarrow> dist_entry list \<Rightarrow> dist_entry list" where
  "dijkstra h graph 0 dist = dist"
| "dijkstra h graph (Suc n) dist = dijkstra h graph n (dijkstra_step h graph dist)"

text \<open>
  The transfer phase for one LSA of the entry with distance record \<open>d\<close>.
  \<open>update_found\<close> is the scan of the routing table for a row with the LSA's subnet:
  \<open>None\<close> when there is none, else the table after the body of the match.
\<close>

definition chosen_iface :: "mospf_world \<Rightarrow> u32 \<Rightarrow> u32 \<Rightarrow> nat option" where
  "chosen_iface w gw subnet = (if gw \<noteq> 0 then gw_to_iface w gw else subnet_to_iface w subnet)"

fun update_found :: "mospf_world \<Rightarrow> dist_entry \<Rightarrow> mospf_lsa \<Rightarrow> rt_entry_t list
    \<Rightarrow> rt_entry_t list option" where
  "update_found w d lsa [] = None"
| "update_found w d lsa (rt # rest) =
     (if lsa_subnet lsa = rt_dest rt then
        (if dist_dist d < rt_dist rt then
           (let rt = rt\<lparr> rt_dist := dist_dist d, rt_gw := dist_gw d,
                         rt_iface := chosen_iface w (dist_gw d) (lsa_subnet lsa) \<rparr>
            in case rt_iface rt of
                 None \<Rightarrow> Some (rt # rest)
               | Some j \<Rightarrow>
                   Some (rt\<lparr> rt_mask := iface_mask (iface_list (ustack w) ! j) \<rparr> # rest))
         else Some (rt # rest))
      else map_option ((#) rt) (update_found w d lsa rest))"

definition transfer_lsa :: "mospf_host \<Rightarrow> mospf_world \<Rightarrow> dist_entry \<Rightarrow> mospf_lsa
    \<Rightarrow> rt_entry_t list \<Rightarrow> rt_error + rt_entry_t list" where
  "transfer_lsa h w d lsa rows =
     (case update_found w d lsa rows of
        Some rows \<Rightarrow> Inr rows
      | None \<Rightarrow>
          (case gw_to_iface w (dist_gw d) of
             None \<Rightarrow>
               if dist_gw d \<noteq> 0 then Inr rows
               else Inr (add_rt_entry
                      (new_rt_entry h (lsa_subnet lsa) (lsa_mask lsa) 0
                         (subnet_to_iface w (lsa_subnet lsa))) rows)
           | Some g \<Rightarrow>
               (case chosen_iface w (dist_gw d) (lsa_subnet lsa) of
                  None \<Rightarrow> Inl Null_iface_deref
                | Some j \<Rightarrow>
                    Inr (add_rt_entry
                      ((new_rt_entry h (lsa_subnet lsa) (iface_mask (iface_list (ustack w) ! j))
                          (dist_gw d) (Some j))\<lparr> rt_dist := dist_dist d \<rparr>) rows))))"

fun transfer_entry :: "mospf_host \<Rightarrow> mospf_world \<Rightarrow> dist_entry \<Rightarrow> nat \<Rightarrow> mospf_lsa list
    \<Rightarrow> rt_entry_t list \<Rightarrow> rt_error + rt_entry_t list" where
  "transfer_entry h w d 0 array rows = Inr rows"
| "transfer_entry h w d (Suc n) [] rows = Inl Array_read_out_of_bounds"
| "transfer_entry h w d (Suc n) (lsa # array) rows =
     (case transfer_lsa h w d lsa rows of
        Inl e \<Rightarrow> Inl e
      | Inr rows \<Rightarrow> transfer_entry h w d n array rows)"

fun transfer :: "mospf_host \<Rightarrow> mospf_world \<Rightarrow> (mospf_db_entry_t \<times> dist_entry) list
    \<Rightarrow> rt_entry_t list \<Rightarrow> rt_error + rt_entry_t list" where
  "transfer h w [] rows = Inr rows"
| "transfer h w ((db, d) # rest) rows =
     (case transfer_entry h w d (unat (db_nadv db)) (db_array db) rows of
        Inl e \<Rightarrow> Inl e
      | Inr rows \<Rightarrow> transfer h w rest rows)"

text \<open>\<open>generate_rt\<close>: the new state, or what stopped the pass.\<close>

definition generate_rt :: "mospf_host \<Rightarrow> mospf_world \<Rightarrow> rt_error + mospf_world" where
  "generate_rt h w =
     (let w = w\<lparr> rtable := init_rtable (clear_rtable (rtable w)) \<rparr>;
          dbs = mospf_db w;
          rnum = length dbs
      in case find_self_db (router_id (ustack w)) dbs of
           None \<Rightarrow> Inr w
         | Some self_db \<Rightarrow>
             (case init_dist h (router_id (ustack w)) self_db dbs of
                Inl e \<Rightarrow> Inl e
              | Inr dist \<Rightarrow>
                  (case init_graph dbs of
                     Inl e \<Rightarrow> Inl e
                   | Inr graph \<Rightarrow>
                       (case transfer h w (zip dbs (dijkstra h graph (rnum - 1) dist)) (rtable w) of
                          Inl e \<Rightarrow> Inl e
                        | Inr rows \<Rightarrow> Inr (w\<lparr> rtable := rows \<rparr>)))))"

section \<open>mOSPF: LSU emission\<close>

text \<open>
  One pass of the body of \<open>sending_mospf_lsu_thread\<close>, from \<open>nbr_changed = 0\<close> on (the
  waiting loop before it only decides when the pass starts).
\<close>

definition count_nadv :: "iface_info_t list \<Rightarrow> int" where
  "count_nadv ifaces =
     foldl (\<lambda>nadv iface. to_int (nadv + (if num_nbr iface = 0 then 1 else num_nbr iface)))
           0 ifaces"

definition iface_lsas :: "iface_info_t \<Rightarrow> mospf_lsa list" where
  "iface_lsas iface =
     (if nbr_list iface = []
      then [\<lparr> lsa_subnet = iface_ip iface AND iface_mask iface, lsa_mask = iface_mask iface,
               lsa_rid = 0 \<rparr>]
      else [])
     @ map (\<lambda>nbr. \<lparr> lsa_subnet = nbr_ip nbr AND nbr_mask nbr, lsa_mask = nbr_mask nbr,
                     lsa_rid = nbr_id nbr \<rparr>) (nbr_list iface)"

definition upsert_self :: "ustack_t \<Rightarrow> mospf_lsa list \<Rightarrow> int \<Rightarrow> mospf_db_entry_t list
    \<Rightarrow> mospf_db_entry_t list" where
  "upsert_self inst lsa_list nadv dbs =
     (case find_db (router_id inst) dbs of
        Some n \<Rightarrow> dbs[n := (dbs ! n)\<lparr> db_array := lsa_list, db_seq := sequence_num inst,
                                     db_nadv := word_of_int nadv \<rparr>]
      | None \<Rightarrow> dbs @ [\<lparr> db_rid = router_id inst, db_seq = sequence_num inst,
                         db_nadv = word_of_int nadv, db_array = lsa_list \<rparr>])"

text \<open>
  The LSU frame built once per pass in freshly allocated memory \<open>raw\<close>; \<open>inst\<close> is the
  instance after \<open>++instance->sequence_num\<close>.
\<close>

definition make_lsu_packet :: "mospf_host \<Rightarrow> lsu_packet \<Rightarrow> ustack_t \<Rightarrow> mospf_lsa list \<Rightarrow> int
    \<Rightarrow> lsu_packet" where
  "make_lsu_packet h raw inst lsa_list nadv =
     (let packet = raw\<lparr>
            ether_type := htons ETH_P_IP,
            ip_version := 4, ip_ihl := 5, ip_tos := 0,
            ip_tot_len := htons (word_of_int (IP_BASE_HDR_SIZE + MOSPF_HDR_SIZE
                                   + MOSPF_LSU_SIZE + MOSPF_LSA_SIZE * nadv)),
            ip_id := word_of_int (rand h),
            ip_frag_off := htons IP_DF,
            ip_ttl := DEFAULT_TTL h,
            ip_protocol := 90,
            mospf_version := MOSPF_VERSION,
            mospf_type := MOSPF_TYPE_LSU,
            mospf_rid := htonl (router_id inst),
            mospf_aid := htonl (area_id inst),
            mospf_padding := htons 0,
            mospf_len := htons (word_of_int (MOSPF_HDR_SIZE + MOSPF_LSU_SIZE
                                  + MOSPF_LSA_SIZE * nadv)),
            lsu_seq := htons (sequence_num inst),
            lsu_ttl := MOSPF_MAX_LSU_TTL h,
            lsu_unused := 0,
            lsu_nadv := htonl (word_of_int nadv),
            lsu_lsas := map lsa_hton lsa_list \<rparr>
      in packet\<lparr> mospf_hdr_checksum := mospf_checksum h packet \<rparr>)"

definition send_to_nbr :: "mospf_host \<Rightarrow> lsu_packet \<Rightarrow> nat \<Rightarrow> iface_info_t \<Rightarrow> mospf_nbr_t
    \<Rightarrow> lsu_send" where
  "send_to_nbr h packet j iface nbr =
     (let iface_packet = packet\<lparr> ip_saddr := htonl (iface_ip iface) \<rparr>;
          iface_packet = iface_packet\<lparr> ip_daddr := htonl (nbr_ip nbr) \<rparr>;
          iface_packet = iface_packet\<lparr> ip_hdr_checksum := ip_checksum h iface_packet \<rparr>;
          iface_packet = iface_packet\<lparr> ether_shost := iface_mac iface \<rparr>
      in (j, nbr_ip nbr, iface_packet))"

definition send_to_all :: "mospf_host \<Rightarrow> lsu_packet \<Rightarrow> iface_info_t list \<Rightarrow> lsu_send list" where
  "send_to_all h packet ifaces =
     concat (map (\<lambda>(j, iface). map (send_to_nbr h packet j iface) (nbr_list iface))
                 (zip [0 ..< length ifaces] ifaces))"

text \<open>
  The pass up to the call of \<open>generate_rt\<close>. The LSA list is allocated for the count
  taken from \<open>num_nbr\<close> and filled from the neighbour lists; when the two disagree the
  code writes past the allocation or leaves its tail unwritten, which has no defined
  result: \<open>None\<close>.
\<close>

definition lsu_emission :: "mospf_host \<Rightarrow> lsu_packet \<Rightarrow> mospf_world
    \<Rightarrow> (mospf_world \<times> lsu_send list) option" where
  "lsu_emission h raw w =
     (let w = w\<lparr> nbr_changed := 0 \<rparr>;
          inst = ustack w;
          nadv = count_nadv (iface_list inst);
          lsa_list = concat (map iface_lsas (iface_list inst))
      in if int (length lsa_list) \<noteq> nadv then None
         else
           let w = w\<lparr> mospf_db := upsert_self inst lsa_list nadv (mospf_db w) \<rparr>;
               inst = inst\<lparr> sequence_num := sequence_num inst + 1 \<rparr>;
               w = w\<lparr> ustack := inst \<rparr>;
               packet = make_lsu_packet h raw inst lsa_list nadv
           in Some (w, send_to_all h packet (iface_list inst)))"

text \<open>The whole pass: the frames sent, then the outcome of \<open>generate_rt\<close>.\<close>

definition sending_mospf_lsu_pass :: "mospf_host \<Rightarrow> lsu_packet \<Rightarrow> mospf_world
    \<Rightarrow> (lsu_send list \<times> (rt_error + mospf_world)) option" where
  "sending_mospf_lsu_pass h raw w =
     (case lsu_emission h raw w of
        None \<Rightarrow> None
      | Some (w, sent) \<Rightarrow> Some (sent, generate_rt h w))"

section \<open>Statements about the spanning tree handler\<close>

text \<open>
  The ports that satisfy the designated predicate, in the order \<open>stp_send_config\<close>
  visits them, and the configuration BPDUs among a list of events.
\<close>

definition designated_ports :: "stp_t \<Rightarrow> nat list" where
  "designated_ports s =
     filter (\<lambda>j. stp_port_is_designated s (ports s ! j)) [0 ..< length (ports s)]"

fun sent_configs :: "stp_event list \<Rightarrow> (nat \<times> stp_config) list" where
  "sent_configs [] = []"
| "sent_configs (Stop_hello_timer # es) = sent_configs es"
| "sent_configs (Send_config j c # es) = (j, c) # sent_configs es"

text \<open>
  The bridge after the receiving port has taken over the BPDU's quadruple, and the test
  the handler then makes: there is a root port and the BPDU does not compare better
  than what that port has stored.
\<close>

definition received_on :: "stp_config \<Rightarrow> stp_t \<Rightarrow> nat \<Rightarrow> stp_t" where
  "received_on config s i =
     s\<lparr> ports := (ports s)[i := update_config_info config (ports s ! i)] \<rparr>"

definition keeps_root_port :: "stp_t \<Rightarrow> nat \<Rightarrow> stp_config \<Rightarrow> bool" where
  "keeps_root_port s i config \<longleftrightarrow>
     (case root_port s of
        None \<Rightarrow> False
      | Some r \<Rightarrow> 0 \<le> get_port_priority config (ports (received_on config s i) ! r))"

text \<open>
  A BPDU compares better than the port it arrives on when \<open>get_port_priority\<close> is
  negative.
\<close>

definition compares_better :: "stp_world \<Rightarrow> nat \<Rightarrow> stp_config \<Rightarrow> bool" where
  "compares_better w i wire \<longleftrightarrow>
     get_port_priority (config_to_host wire) (ports (stp w) ! i) < 0"

text \<open>
  A run of the handler over a sequence of BPDUs, each with the index of the port it
  arrives on: for every BPDU, whether it compared better in the state it met, and the
  events of its handling.
\<close>

fun stp_run :: "stp_constants \<Rightarrow> stp_world \<Rightarrow> (nat \<times> stp_config) list
    \<Rightarrow> (bool \<times> stp_event list) list" where
  "stp_run k w [] = []"
| "stp_run k w ((i, wire) # rest) =
     (compares_better w i wire, snd (stp_handle_config_packet k w i wire))
       # stp_run k (fst (stp_handle_config_packet k w i wire)) rest"

text \<open>
  \<open>first_only\<close> marks the first \<open>True\<close> of a list with 1 and everything else with 0;
  \<open>timer_stops\<close> counts the calls of \<open>stp_stop_timer\<close> per BPDU of a run.
\<close>

fun first_only :: "bool list \<Rightarrow> nat list" where
  "first_only [] = []"
| "first_only (b # bs) = (if b then 1 # replicate (length bs) 0 else 0 # first_only bs)"

definition timer_stops :: "(bool \<times> stp_event list) list \<Rightarrow> nat list" where
  "timer_stops log = map (\<lambda>(b, events). count_list events Stop_hello_timer) log"

text \<open>
  The comparison the specification asks for: the designated quadruples as unsigned
  values, ordered lexicographically.
\<close>

type_synonym quadruple = "u64 \<times> u32 \<times> u64 \<times> u16"

definition config_quadruple :: "stp_config \<Rightarrow> quadruple" where
  "config_quadruple c =
     (config_root_id c, config_root_path_cost c, config_switch_id c, config_port_id c)"

definition port_quadruple :: "stp_port_t \<Rightarrow> quadruple" where
  "port_quadruple p =
     (designated_root p, designated_cost p, designated_switch p, designated_port p)"

fun lex_less :: "quadruple \<Rightarrow> quadruple \<Rightarrow> bool" where
  "lex_less (a, b, c, d) (a', b', c', d') \<longleftrightarrow>
     a < a' \<or> (a = a' \<and> (b < b' \<or> (b = b' \<and> (c < c' \<or> (c = c' \<and> d < d')))))"

subsection \<open>A bridge with two ports\<close>

text \<open>
  Bridge \<open>0x8000000000000002\<close> as \<open>stp_init\<close> leaves it: it believes itself root and
  both ports are designated. \<open>example_bpdu\<close> is a configuration BPDU in wire order.
  \<open>world_after_election\<close> is the same bridge after it has elected port 0 as root port
  towards bridge \<open>0x8000000000000001\<close>. \<open>bpdu_far_root\<close> comes from a bridge whose
  MAC address differs from the local one in bit 32 only; \<open>bpdu_best\<close> announces the
  root \<open>0x8000000000000000\<close>, better than any root the example bridge has seen.
\<close>

definition example_constants :: stp_constants where
  "example_constants = \<lparr> STP_PROTOCOL_ID = 0, STP_PROTOCOL_VERSION = 0, STP_TYPE_CONFIG = 0,
     STP_MAX_AGE = 20, STP_HELLO_TIME = 2, STP_FWD_DELAY = 15 \<rparr>"

definition example_port :: "u64 \<Rightarrow> u16 \<Rightarrow> stp_port_t" where
  "example_port switch pid = \<lparr> port_id = pid, path_cost = 1, designated_root = switch,
     designated_switch = switch, designated_port = pid, designated_cost = 0 \<rparr>"

definition example_bridge :: stp_t where
  "example_bridge = \<lparr> switch_id = 0x8000000000000002,
     stp_designated_root = 0x8000000000000002, root_path_cost = 0, root_port = None,
     ports = [example_port 0x8000000000000002 0x8001, example_port 0x8000000000000002 0x8002] \<rparr>"

definition example_world :: stp_world where
  "example_world = \<lparr> stp = example_bridge, root = 1 \<rparr>"

definition example_bpdu :: "u64 \<Rightarrow> u32 \<Rightarrow> u64 \<Rightarrow> u16 \<Rightarrow> stp_config" where
  "example_bpdu root_id cost switch pid =
     \<lparr> config_proto_id = 0, config_version = 0, config_msg_type = 0, config_flags = 0,
       config_root_id = htonll root_id, config_root_path_cost = htonl cost,
       config_switch_id = htonll switch, config_port_id = htons pid,
       config_msg_age = 0, config_max_age = htons 20, config_hello_time = htons 2,
       config_fwd_delay = htons 15 \<rparr>"

definition bpdu_better :: stp_config where
  "bpdu_better = example_bpdu 0x8000000000000001 0 0x8000000000000001 0x8001"

definition bpdu_worse :: stp_config where
  "bpdu_worse = example_bpdu 0x8000000000000003 0 0x8000000000000003 0x8001"

definition bpdu_equal :: stp_config where
  "bpdu_equal = example_bpdu 0x8000000000000002 0 0x8000000000000002 0x8001"

definition bpdu_far_root :: stp_config where
  "bpdu_far_root = example_bpdu 0x8000000100000002 0 0x8000000100000002 0x8001"



section \<open>Statements about the mOSPF daemon\<close>

text \<open>
  The link-state database after the lookup of \<open>handle_mospf_lsu\<close>: unchanged when it
  has an entry for the router id, else with a new entry at the tail whose sequence
  number is 0.
\<close>

definition inserted_db :: "mospf_db_entry_t \<Rightarrow> u32 \<Rightarrow> mospf_db_entry_t list
    \<Rightarrow> mospf_db_entry_t list" where
  "inserted_db fresh rid dbs =
     (if rid \<in> db_rid ` set dbs then dbs else dbs @ [fresh\<lparr> db_rid := rid, db_seq := 0 \<rparr>])"

text \<open>
  The number of LSAs \<open>sending_mospf_lsu_thread\<close> counts for one interface.
\<close>

definition lsa_slots :: "iface_info_t \<Rightarrow> int" where
  "lsa_slots iface = (if num_nbr iface = 0 then 1 else num_nbr iface)"

subsection \<open>A router with two interfaces\<close>

text \<open>
  Router \<open>10.0.1.1\<close> with a neighbour on each of its two interfaces, and the same
  router with a single interface and no neighbour; an LSU and a Hello frame as they
  arrive from a neighbour; database entries for the neighbour \<open>10.0.1.2\<close> and for the
  router's own stub network.
\<close>

definition example_host :: mospf_host where
  "example_host = \<lparr> ip_checksum = (\<lambda>p. 0), mospf_checksum = (\<lambda>p. 0), rand = 0,
     new_rt_entry_dist = 0, MOSPF_NEIGHBOR_TIMEOUT = 15, MOSPF_MAX_LSU_TTL = 255,
     DEFAULT_TTL = 64, MAX_DIST = 255, BAD_GW = 0xFFFFFFFF \<rparr>"

definition example_nbr :: "u32 \<Rightarrow> mospf_nbr_t" where
  "example_nbr ip = \<lparr> nbr_id = ip, nbr_ip = ip, nbr_mask = 0xFFFFFF00, alive = 7 \<rparr>"

definition example_iface :: "u32 \<Rightarrow> u8 \<Rightarrow> mospf_nbr_t list \<Rightarrow> iface_info_t" where
  "example_iface ip m nbrs = \<lparr> iface_ip = ip, iface_mask = 0xFFFFFF00,
     iface_mac = [0, 0, 0, 0, 0, m], helloint = 5, num_nbr = int (length nbrs),
     nbr_list = nbrs \<rparr>"

definition example_router :: "u16 \<Rightarrow> mospf_db_entry_t list \<Rightarrow> mospf_world" where
  "example_router seq dbs =
     \<lparr> ustack = \<lparr> router_id = 0x0A000101, area_id = 0, sequence_num = seq, lsuint = 30,
                  iface_list = [example_iface 0x0A000101 1 [example_nbr 0x0A000102],
                                example_iface 0x0A000201 2 [example_nbr 0x0A000202]] \<rparr>,
       mospf_db = dbs, nbr_changed = 0,
       rtable = [\<lparr> rt_dest = 0x0A000100, rt_mask = 0xFFFFFF00, rt_gw = 0, rt_dist = 0,
                   rt_iface = Some 0 \<rparr>] \<rparr>"

definition example_stub_router :: "u16 \<Rightarrow> mospf_db_entry_t list \<Rightarrow> mospf_world" where
  "example_stub_router seq dbs =
     \<lparr> ustack = \<lparr> router_id = 0x0A000101, area_id = 0, sequence_num = seq, lsuint = 30,
                  iface_list = [example_iface 0x0A000101 1 []] \<rparr>,
       mospf_db = dbs, nbr_changed = 0, rtable = [] \<rparr>"

definition raw_db_entry :: mospf_db_entry_t where
  "raw_db_entry = \<lparr> db_rid = 0, db_seq = 0, db_nadv = 0, db_array = [] \<rparr>"

definition example_lsu :: "u32 \<Rightarrow> u16 \<Rightarrow> mospf_lsa list \<Rightarrow> lsu_packet" where
  "example_lsu rid seq lsas =
     \<lparr> ether_dhost = [0, 0, 0, 0, 0, 1], ether_shost = [0, 0, 0, 0, 1, 2],
       ether_type = htons ETH_P_IP,
       ip_version = 4, ip_ihl = 5, ip_tos = 0,
       ip_tot_len = htons (word_of_int (44 + 12 * int (length lsas))),
       ip_id = 0, ip_frag_off = htons IP_DF, ip_ttl = 64, ip_protocol = 90,
       ip_hdr_checksum = 0, ip_saddr = htonl rid, ip_daddr = htonl 0x0A000101,
       mospf_version = MOSPF_VERSION, mospf_type = MOSPF_TYPE_LSU,
       mospf_len = htons (word_of_int (24 + 12 * int (length lsas))),
       mospf_rid = htonl rid, mospf_aid = htonl 0, mospf_hdr_checksum = 0, mospf_padding = 0,
       lsu_seq = htons seq, lsu_ttl = 255, lsu_unused = 0,
       lsu_nadv = htonl (word_of_int (int (length lsas))),
       lsu_lsas = map lsa_hton lsas \<rparr>"

definition example_hello :: "u32 \<Rightarrow> u32 \<Rightarrow> u32 \<Rightarrow> hello_packet" where
  "example_hello rid src netmask =
     \<lparr> ether_dhost = [1, 0, 0x5E, 0, 0, 5], ether_shost = [0, 0, 0, 0, 1, 2],
       ether_type = htons ETH_P_IP,
       ip_version = 4, ip_ihl = 5, ip_tos = 0, ip_tot_len = htons 44,
       ip_id = 0, ip_frag_off = 0, ip_ttl = 64, ip_protocol = 90,
       ip_hdr_checksum = 0, ip_saddr = htonl src, ip_daddr = htonl 0xE0000005,
       mospf_version = MOSPF_VERSION, mospf_type = 1, mospf_len = htons 24,
       mospf_rid = htonl rid, mospf_aid = htonl 0, mospf_hdr_checksum = 0, mospf_padding = 0,
       hello_mask = htonl netmask, hello_helloint = htons 5, hello_padding = 0 \<rparr>"

definition example_lsas :: "mospf_lsa list" where
  "example_lsas = [\<lparr> lsa_subnet = 0x0A000100, lsa_mask = 0xFFFFFF00, lsa_rid = 0x0A000101 \<rparr>]"

definition stored_entry :: "u16 \<Rightarrow> mospf_db_entry_t" where
  "stored_entry seq = \<lparr> db_rid = 0x0A000102, db_seq = seq, db_nadv = 0, db_array = [] \<rparr>"

definition stub_entry :: mospf_db_entry_t where
  "stub_entry = \<lparr> db_rid = 0x0A000101, db_seq = 0, db_nadv = 1,
     db_array = [\<lparr> lsa_subnet = 0x0A000100, lsa_mask = 0xFFFFFF00, lsa_rid = 0 \<rparr>] \<rparr>"

section \<open>The spanning tree handler\<close>

subsection \<open>The handler by cases\<close>

lemma handler_unfold:
  "stp_handle_config_packet k w i wire =
     (if 0 < get_port_priority (config_to_host wire) (ports (stp w) ! i) then
        (w\<lparr> stp := (stp w)\<lparr> ports := (ports (stp w))
            [i := (ports (stp w) ! i)\<lparr> designated_port := port_id (ports (stp w) ! i),
                                       designated_switch := switch_id (stp w) \<rparr>] \<rparr> \<rparr>, [])
      else if get_port_priority (config_to_host wire) (ports (stp w) ! i) = 0 then
        (w, stp_send_config k (stp w))
      else if (case root_port (stp w) of None \<Rightarrow> False
               | Some r \<Rightarrow> 0 \<le> get_port_priority (config_to_host wire)
                   ((ports (stp w))[i := update_config_info (config_to_host wire)
                      (ports (stp w) ! i)] ! r)) then
        ((fst (change_to_non_root w))
           \<lparr> stp := (stp w)\<lparr> ports := (ports (stp w))
               [i := update_config_info (config_to_host wire) (ports (stp w) ! i)] \<rparr> \<rparr>,
         snd (change_to_non_root w))
      else
        ((fst (change_to_non_root w))
           \<lparr> stp := fst (change_root_port k
               ((stp w)\<lparr> ports := (ports (stp w))
                  [i := update_config_info (config_to_host wire) (ports (stp w) ! i)] \<rparr>)
               i (config_to_host wire)) \<rparr>,
         snd (change_to_non_root w) @
         snd (change_root_port k
               ((stp w)\<lparr> ports := (ports (stp w))
                  [i := update_config_info (config_to_host wire) (ports (stp w) ! i)] \<rparr>)
               i (config_to_host wire))))"
  unfolding stp_handle_config_packet_def Let_def case_prod_beta
  by (simp cong: option.case_cong)

lemma send_loop_suppressed:
  assumes "\<not> stp_is_root_switch s" "root_port s = None"
  shows "concat (map (\<lambda>i. if stp_port_is_designated s (ports s ! i)
                          then stp_port_send_config k s i else []) xs) = []"
proof -
  have "stp_port_send_config k s x = []" for x
    using assms by (simp add: stp_port_send_config_def)
  then show ?thesis by auto
qed

lemma send_loop_sends:
  assumes "stp_is_root_switch s \<or> root_port s \<noteq> None"
  shows "concat (map (\<lambda>i. if stp_port_is_designated s (ports s ! i)
                          then stp_port_send_config k s i else []) xs) =
         map (\<lambda>j. Send_config j (build_config k s (ports s ! j)))
             (filter (\<lambda>j. stp_port_is_designated s (ports s ! j)) xs)"
proof (induction xs)
  case Nil
  show ?case by simp
next
  case (Cons x xs)
  have "stp_port_send_config k s x = [Send_config x (build_config k s (ports s ! x))]"
    using assms by (auto simp add: stp_port_send_config_def)
  with Cons show ?case by simp
qed

lemma stp_send_config_suppressed:
  "\<not> stp_is_root_switch s \<Longrightarrow> root_port s = None \<Longrightarrow> stp_send_config k s = []"
  by (simp add: stp_send_config_def send_loop_suppressed)

lemma stp_send_config_sends:
  assumes "stp_is_root_switch s \<or> root_port s \<noteq> None"
  shows "stp_send_config k s =
           map (\<lambda>j. Send_config j (build_config k s (ports s ! j))) (designated_ports s)"
  using assms by (simp add: stp_send_config_def designated_ports_def send_loop_sends)

lemma sent_configs_append: "sent_configs (xs @ ys) = sent_configs xs @ sent_configs ys"
  by (induction xs rule: sent_configs.induct) simp_all

lemma sent_configs_map_Send:
  "sent_configs (map (\<lambda>j. Send_config j (f j)) xs) = map (\<lambda>j. (j, f j)) xs"
  by (induction xs) simp_all

lemma count_stop_map_Send:
  "count_list (map (\<lambda>j. Send_config j (f j)) xs) Stop_hello_timer = 0"
  by (induction xs) simp_all

lemma count_stop_send_config: "count_list (stp_send_config k s) Stop_hello_timer = 0"
proof (cases "stp_is_root_switch s \<or> root_port s \<noteq> None")
  case True
  then show ?thesis by (simp add: stp_send_config_sends count_stop_map_Send)
next
  case False
  then show ?thesis by (simp add: stp_send_config_suppressed)
qed

lemma handler_worse:
  assumes "0 < get_port_priority (config_to_host wire) (ports (stp w) ! i)"
  shows "stp_handle_config_packet k w i wire =
        (w\<lparr> stp := (stp w)\<lparr> ports := (ports (stp w))
            [i := (ports (stp w) ! i)\<lparr> designated_port := port_id (ports (stp w) ! i),
                                       designated_switch := switch_id (stp w) \<rparr>] \<rparr> \<rparr>, [])"
  using assms by (simp add: handler_unfold)

lemma handler_equal:
  assumes "get_port_priority (config_to_host wire) (ports (stp w) ! i) = 0"
  shows "stp_handle_config_packet k w i wire = (w, stp_send_config k (stp w))"
  using assms by (simp add: handler_unfold)

lemma handler_better:
  assumes "get_port_priority (config_to_host wire) (ports (stp w) ! i) < 0"
  shows "stp_handle_config_packet k w i wire =
     (if keeps_root_port (stp w) i (config_to_host wire) then
        ((fst (change_to_non_root w))\<lparr> stp := received_on (config_to_host wire) (stp w) i \<rparr>,
         snd (change_to_non_root w))
      else
        ((fst (change_to_non_root w))
           \<lparr> stp := fst (change_root_port k (received_on (config_to_host wire) (stp w) i)
               i (config_to_host wire)) \<rparr>,
         snd (change_to_non_root w) @
         snd (change_root_port k (received_on (config_to_host wire) (stp w) i)
               i (config_to_host wire))))"
proof -
  have "\<not> 0 < get_port_priority (config_to_host wire) (ports (stp w) ! i)"
    and "get_port_priority (config_to_host wire) (ports (stp w) ! i) \<noteq> 0"
    using assms by simp_all
  then show ?thesis
    by (simp add: handler_unfold keeps_root_port_def received_on_def cong: option.case_cong)
qed

lemma change_to_non_root_stops:
  "count_list (snd (change_to_non_root w)) Stop_hello_timer = (if root w = 1 then 1 else 0)"
  by (simp add: change_to_non_root_def)

lemma change_to_non_root_root:
  "root (fst (change_to_non_root w)) = (if root w = 1 then 0 else root w)"
  by (simp add: change_to_non_root_def)

lemma change_to_non_root_stp: "stp (fst (change_to_non_root w)) = stp w"
  by (simp add: change_to_non_root_def)

lemma change_to_non_root_sent: "sent_configs (snd (change_to_non_root w)) = []"
  by (simp add: change_to_non_root_def)

lemma change_root_port_stops:
  "count_list (snd (change_root_port k s i config)) Stop_hello_timer = 0"
  by (simp add: change_root_port_def Let_def count_stop_send_config)

lemma handler_stops:
  "count_list (snd (stp_handle_config_packet k w i wire)) Stop_hello_timer =
     (if compares_better w i wire \<and> root w = 1 then 1 else 0)"
proof -
  let ?pr = "get_port_priority (config_to_host wire) (ports (stp w) ! i)"
  consider "0 < ?pr" | "?pr = 0" | "?pr < 0" by linarith
  then show ?thesis
  proof cases
    case 1
    then show ?thesis by (simp add: handler_worse compares_better_def)
  next
    case 2
    then show ?thesis by (simp add: handler_equal compares_better_def count_stop_send_config)
  next
    case 3
    then show ?thesis
      by (simp add: handler_better compares_better_def change_to_non_root_stops
          change_root_port_stops)
  qed
qed

lemma handler_root:
  "root (fst (stp_handle_config_packet k w i wire)) =
     (if compares_better w i wire \<and> root w = 1 then 0 else root w)"
proof -
  let ?pr = "get_port_priority (config_to_host wire) (ports (stp w) ! i)"
  consider "0 < ?pr" | "?pr = 0" | "?pr < 0" by linarith
  then show ?thesis
  proof cases
    case 1
    then show ?thesis by (simp add: handler_worse compares_better_def)
  next
    case 2
    then show ?thesis by (simp add: handler_equal compares_better_def)
  next
    case 3
    then show ?thesis
      by (simp add: handler_better compares_better_def change_to_non_root_root)
  qed
qed

lemma run_after_stop:
  "root w \<noteq> 1 \<Longrightarrow> timer_stops (stp_run k w bs) = replicate (length bs) 0"
proof (induction bs arbitrary: w)
  case Nil
  then show ?case by (simp add: timer_stops_def)
next
  case (Cons b bs)
  obtain i wire where b: "b = (i, wire)" by (cases b)
  have "root (fst (stp_handle_config_packet k w i wire)) \<noteq> 1"
    using Cons.prems by (simp add: handler_root)
  from Cons.IH [OF this] show ?case
    using Cons.prems by (simp add: b timer_stops_def handler_stops)
qed

lemma length_stp_run: "length (stp_run k w bs) = length bs"
  by (induction bs arbitrary: w) auto

lemma sum_first_only: "sum_list (first_only bs) = (if True \<in> set bs then 1 else 0)"
  by (induction bs) auto

lemma get_port_priority_self:
  "get_port_priority config (update_config_info config p) = 0"
  by (simp add: get_port_priority_def update_config_info_def add_term_def to_int_def)

lemma distinct_port_id_other:
  assumes "distinct (map port_id ps)" "i < length ps" "j < length ps" "j \<noteq> i"
  shows "port_id (ps ! j) \<noteq> port_id (ps ! i)"
proof
  assume "port_id (ps ! j) = port_id (ps ! i)"
  then have eq: "map port_id ps ! j = map port_id ps ! i"
    using assms(2,3) by simp
  have "j < length (map port_id ps)" "i < length (map port_id ps)"
    using assms(2,3) by simp_all
  with eq have "j = i"
    using nth_eq_iff_index_eq [OF assms(1), of j i] by blast
  with assms(4) show False by simp
qed

lemma received_on_simps:
  "root_port (received_on config s i) = root_port s"
  "stp_designated_root (received_on config s i) = stp_designated_root s"
  "root_path_cost (received_on config s i) = root_path_cost s"
  "switch_id (received_on config s i) = switch_id s"
  "length (ports (received_on config s i)) = length (ports s)"
  "i < length (ports s) \<Longrightarrow>
     ports (received_on config s i) ! i = update_config_info config (ports s ! i)"
  "j \<noteq> i \<Longrightarrow> ports (received_on config s i) ! j = ports s ! j"
  by (simp_all add: received_on_def)

lemma change_root_port_fields:
  "root_port (fst (change_root_port k s i config)) = Some i"
  "stp_designated_root (fst (change_root_port k s i config)) = config_root_id config"
  "root_path_cost (fst (change_root_port k s i config)) =
     designated_cost (ports s ! i) + path_cost (ports s ! i)"
  "switch_id (fst (change_root_port k s i config)) = switch_id s"
  "length (ports (fst (change_root_port k s i config))) = length (ports s)"
  by (simp_all add: change_root_port_def Let_def)

lemma change_root_port_ports:
  assumes "j < length (ports s)"
  shows "ports (fst (change_root_port k s i config)) ! j =
     (if port_id (ports s ! j) \<noteq> port_id (ports s ! i)
      then (ports s ! j)\<lparr> designated_cost := designated_cost (ports s ! i) + path_cost (ports s ! i),
                          designated_root := config_root_id config \<rparr>
      else ports s ! j)"
  using assms by (simp add: change_root_port_def Let_def update_port_info_def)

lemma change_root_port_sent:
  "sent_configs (snd (change_root_port k s i config)) =
     map (\<lambda>j. (j, build_config k (fst (change_root_port k s i config))
                    (ports (fst (change_root_port k s i config)) ! j)))
         (designated_ports (fst (change_root_port k s i config)))"
proof -
  have "snd (change_root_port k s i config) = stp_send_config k (fst (change_root_port k s i config))"
    by (simp add: change_root_port_def Let_def)
  moreover have "root_port (fst (change_root_port k s i config)) \<noteq> None"
    by (simp add: change_root_port_fields)
  ultimately show ?thesis
    by (simp add: stp_send_config_sends sent_configs_map_Send)
qed

subsection \<open>The priority comparison\<close>

text \<open>
  C1 (code defect). The claim: the sign of \<open>get_port_priority\<close> is the lexicographic
  comparison of the unsigned quadruples of BPDU and port. The code assigns the 64-bit
  difference of the root ids (and of the switch ids) to an \<open>int\<close>, which keeps its low
  32 bits only. For the BPDU of a root bridge whose identifier differs from the port's
  stored root in bit 32 alone, every term vanishes and the result is 0, a tie, although
  the BPDU's quadruple is greater than the port's.
\<close>

theorem C1_failing_input:
  "get_port_priority (config_to_host bpdu_far_root) (ports example_bridge ! 0) = 0
   \<and> lex_less (port_quadruple (ports example_bridge ! 0))
         (config_quadruple (config_to_host bpdu_far_root))"
  by code_simp

subsection \<open>Worse and equal BPDUs\<close>

text \<open>
  C7. For a BPDU received on port \<open>i\<close>: if it compares worse than the port's stored
  quadruple, the port's \<open>designated_switch\<close> becomes the bridge's \<open>switch_id\<close> and its
  \<open>designated_port\<close> its own \<open>port_id\<close>, so the port is designated again, nothing
  else changes and no event is produced; if it compares equal, the state is unchanged
  and, the bridge being root or having a root port, one configuration BPDU is sent
  from every designated port.
\<close>

theorem C7:
  assumes "i < length (ports (stp w))"
  shows "let s = stp w; p = ports s ! i;
             priority = get_port_priority (config_to_host wire) p;
             (w', events) = stp_handle_config_packet k w i wire;
             s' = stp w'
         in (0 < priority \<longrightarrow>
               ports s' ! i = p\<lparr> designated_switch := switch_id s, designated_port := port_id p \<rparr>
               \<and> stp_port_is_designated s' (ports s' ! i)
               \<and> events = []
               \<and> (\<forall>j < length (ports s). j \<noteq> i \<longrightarrow> ports s' ! j = ports s ! j)
               \<and> length (ports s') = length (ports s)
               \<and> switch_id s' = switch_id s \<and> stp_designated_root s' = stp_designated_root s
               \<and> root_path_cost s' = root_path_cost s \<and> root_port s' = root_port s
               \<and> root w' = root w)
          \<and> (priority = 0 \<longrightarrow>
               w' = w
               \<and> (stp_is_root_switch s \<or> root_port s \<noteq> None \<longrightarrow>
                    events = map (\<lambda>j. Send_config j (build_config k s (ports s ! j)))
                                 (designated_ports s)))"
proof -
  let ?pr = "get_port_priority (config_to_host wire) (ports (stp w) ! i)"
  consider "0 < ?pr" | "?pr = 0" | "?pr < 0" by linarith
  then show ?thesis
  proof cases
    case 1
    then show ?thesis
      using assms by (simp add: handler_worse stp_port_is_designated_def)
  next
    case 2
    then show ?thesis
      by (simp add: handler_equal stp_send_config_sends)
  next
    case 3
    then show ?thesis by (simp add: Let_def case_prod_beta)
  qed
qed

text \<open>
  The witness of C7: on the example bridge a BPDU with a greater root id compares
  worse and produces no event; a BPDU equal to port 0's quadruple leaves the state as
  it is and is answered from both designated ports.
\<close>

theorem C7_witness:
  "0 < length (ports (stp example_world))
   \<and> 0 < get_port_priority (config_to_host bpdu_worse) (ports (stp example_world) ! 0)
   \<and> snd (stp_handle_config_packet example_constants example_world 0 bpdu_worse) = []
   \<and> get_port_priority (config_to_host bpdu_equal) (ports (stp example_world) ! 0) = 0
   \<and> stp_is_root_switch (stp example_world)
   \<and> fst (stp_handle_config_packet example_constants example_world 0 bpdu_equal) = example_world
   \<and> map fst (sent_configs
         (snd (stp_handle_config_packet example_constants example_world 0 bpdu_equal))) = [0, 1]"
proof -
  have len: "0 < length (ports (stp example_world))" by code_simp
  have worse: "0 < get_port_priority (config_to_host bpdu_worse) (ports (stp example_world) ! 0)"
    by code_simp
  have equal: "get_port_priority (config_to_host bpdu_equal) (ports (stp example_world) ! 0) = 0"
    by code_simp
  have is_root: "stp_is_root_switch (stp example_world)" by code_simp
  have designated: "designated_ports (stp example_world) = [0, 1]" by code_simp
  have a: "snd (stp_handle_config_packet example_constants example_world 0 bpdu_worse) = []"
    using C7 [OF len, of bpdu_worse example_constants] worse
    by (simp add: Let_def case_prod_beta)
  have b: "fst (stp_handle_config_packet example_constants example_world 0 bpdu_equal)
        = example_world
      \<and> snd (stp_handle_config_packet example_constants example_world 0 bpdu_equal)
        = map (\<lambda>j. Send_config j (build_config example_constants (stp example_world)
                  (ports (stp example_world) ! j))) (designated_ports (stp example_world))"
    using C7 [OF len, of bpdu_equal example_constants] equal is_root
    by (simp add: Let_def case_prod_beta)
  have c: "map fst (sent_configs
      (snd (stp_handle_config_packet example_constants example_world 0 bpdu_equal))) = [0, 1]"
    by (simp add: b sent_configs_map_Send designated)
  show ?thesis
    by (intro conjI; fact len worse equal is_root a c b [THEN conjunct1])
qed

subsection \<open>The hello timer\<close>

text \<open>
  C8. In a run that starts in the process's initial state (\<open>root = 1\<close>), the hello
  timer is stopped while handling a BPDU exactly if that BPDU is the first of the run
  that compares better than its port, and then once; so it is stopped at most once in
  the whole run, and no later BPDU stops it again.
\<close>

theorem C8:
  assumes "root w = 1"
  shows "timer_stops (stp_run k w bs) = first_only (map fst (stp_run k w bs))
       \<and> sum_list (timer_stops (stp_run k w bs)) \<le> 1"
proof -
  have "timer_stops (stp_run k w bs) = first_only (map fst (stp_run k w bs))"
    using assms
  proof (induction bs arbitrary: w)
    case Nil
    then show ?case by (simp add: timer_stops_def)
  next
    case (Cons b bs)
    obtain i wire where b: "b = (i, wire)" by (cases b)
    let ?w' = "fst (stp_handle_config_packet k w i wire)"
    show ?case
    proof (cases "compares_better w i wire")
      case True
      then have "root ?w' \<noteq> 1" using Cons.prems by (simp add: handler_root)
      then have "timer_stops (stp_run k ?w' bs) = replicate (length bs) 0"
        by (rule run_after_stop)
      then show ?thesis
        using True Cons.prems
        by (simp add: b timer_stops_def handler_stops length_stp_run)
    next
      case False
      then have "root ?w' = 1" using Cons.prems by (simp add: handler_root)
      from Cons.IH [OF this] show ?thesis
        using False by (simp add: b timer_stops_def handler_stops)
    qed
  qed
  then show ?thesis by (simp add: sum_first_only)
qed

text \<open>
  The witness of C8: an equal BPDU, two better ones and a worse one; the timer is
  stopped by the second BPDU only.
\<close>

theorem C8_witness:
  "root example_world = 1
   \<and> timer_stops (stp_run example_constants example_world
        [(0, bpdu_equal), (0, bpdu_better), (1, bpdu_better), (1, bpdu_worse)]) = [0, 1, 0, 0]"
proof -
  have r: "root example_world = 1" by code_simp
  have better: "map fst (stp_run example_constants example_world
     [(0, bpdu_equal), (0, bpdu_better), (1, bpdu_better), (1, bpdu_worse)])
       = [False, True, True, False]"
    by code_simp
  have "timer_stops (stp_run example_constants example_world
        [(0, bpdu_equal), (0, bpdu_better), (1, bpdu_better), (1, bpdu_worse)]) = [0, 1, 0, 0]"
    using C8 [OF r, of example_constants
        "[(0, bpdu_equal), (0, bpdu_better), (1, bpdu_better), (1, bpdu_worse)]"]
    by (simp only: better) simp
  with r show ?thesis by (intro conjI)
qed

subsection \<open>Better BPDUs\<close>

text \<open>
  What the last branch of the handler does, split by the test the code makes after it
  has overwritten the port: the port's designated quadruple is the BPDU's; if the
  test succeeds, the root port, the bridge's designated root and root path cost and
  every other port are unchanged and no configuration BPDU is sent; if it fails,
  port \<open>i\<close> becomes the root port, the bridge takes the BPDU's root id and the port's
  cost plus its path cost, every other port (port ids being distinct) takes over the
  bridge's new root and cost, and every port that is then designated sends.
\<close>

lemma better_bpdu_cases:
  assumes "i < length (ports (stp w))"
    and "distinct (map port_id (ports (stp w)))"
    and "get_port_priority (config_to_host wire) (ports (stp w) ! i) < 0"
  shows "let s = stp w; p = ports s ! i; config = config_to_host wire;
             (w', events) = stp_handle_config_packet k w i wire;
             s' = stp w'
         in designated_root (ports s' ! i) = config_root_id config
          \<and> designated_cost (ports s' ! i) = config_root_path_cost config
          \<and> designated_switch (ports s' ! i) = config_switch_id config
          \<and> designated_port (ports s' ! i) = config_port_id config
          \<and> port_id (ports s' ! i) = port_id p \<and> path_cost (ports s' ! i) = path_cost p
          \<and> length (ports s') = length (ports s)
          \<and> switch_id s' = switch_id s
          \<and> (keeps_root_port s i config \<longrightarrow>
                root_port s' = root_port s
              \<and> stp_designated_root s' = stp_designated_root s
              \<and> root_path_cost s' = root_path_cost s
              \<and> (\<forall>j < length (ports s). j \<noteq> i \<longrightarrow> ports s' ! j = ports s ! j)
              \<and> sent_configs events = [])
          \<and> (\<not> keeps_root_port s i config \<longrightarrow>
                root_port s' = Some i
              \<and> stp_designated_root s' = config_root_id config
              \<and> root_path_cost s' = designated_cost (ports s' ! i) + path_cost (ports s' ! i)
              \<and> (\<forall>j < length (ports s). j \<noteq> i \<longrightarrow>
                    ports s' ! j = (ports s ! j)\<lparr> designated_cost := root_path_cost s',
                                                 designated_root := stp_designated_root s' \<rparr>)
              \<and> sent_configs events =
                  map (\<lambda>j. (j, build_config k s' (ports s' ! j))) (designated_ports s'))"
proof -
  define s where "s = stp w"
  define config where "config = config_to_host wire"
  define s1 where "s1 = received_on config s i"
  define s2 where "s2 = fst (change_root_port k s1 i config)"
  have len: "i < length (ports s)" using assms(1) by (simp add: s_def)
  have better: "stp_handle_config_packet k w i wire =
     (if keeps_root_port s i config
      then ((fst (change_to_non_root w))\<lparr> stp := s1 \<rparr>, snd (change_to_non_root w))
      else ((fst (change_to_non_root w))\<lparr> stp := s2 \<rparr>,
            snd (change_to_non_root w) @ snd (change_root_port k s1 i config)))"
    using handler_better [OF assms(3), of k] by (simp add: s_def config_def s1_def s2_def)
  have s1_i: "ports s1 ! i = update_config_info config (ports s ! i)"
    using len by (simp add: s1_def received_on_simps)
  have s1_len: "length (ports s1) = length (ports s)"
    by (simp add: s1_def received_on_simps)
  have s2_i: "ports s2 ! i = update_config_info config (ports s ! i)"
    using len s1_len by (simp add: s2_def change_root_port_ports s1_i)
  have s2_other: "ports s2 ! j = (ports s ! j)\<lparr> designated_cost := root_path_cost s2,
                                                 designated_root := stp_designated_root s2 \<rparr>"
    if "j < length (ports s)" "j \<noteq> i" for j
  proof -
    have "port_id (ports s ! j) \<noteq> port_id (ports s ! i)"
      using assms(2) len that unfolding s_def by (rule distinct_port_id_other)
    then have "port_id (ports s1 ! j) \<noteq> port_id (ports s1 ! i)"
      using that by (simp add: s1_i update_config_info_def) (simp add: s1_def received_on_simps)
    moreover have "ports s1 ! j = ports s ! j"
      using that by (simp add: s1_def received_on_simps)
    ultimately show ?thesis
      using that s1_len by (simp add: s2_def change_root_port_ports change_root_port_fields)
  qed
  have s1_ip: "designated_cost (ports s1 ! i) = config_root_path_cost config"
    "path_cost (ports s1 ! i) = path_cost (ports s ! i)"
    by (simp_all add: s1_i update_config_info_def)
  have s2_fields: "root_port s2 = Some i" "stp_designated_root s2 = config_root_id config"
    "root_path_cost s2 = config_root_path_cost config + path_cost (ports s ! i)"
    "switch_id s2 = switch_id s1" "length (ports s2) = length (ports s)"
    by (simp_all add: s2_def change_root_port_fields s1_ip s1_len)
  have s1_sw: "switch_id s1 = switch_id s"
    by (simp add: s1_def received_on_simps)
  have s2_sent: "sent_configs (snd (change_root_port k s1 i config)) =
      map (\<lambda>j. (j, build_config k s2 (ports s2 ! j))) (designated_ports s2)"
    by (simp add: s2_def change_root_port_sent)
  show ?thesis
  proof (cases "keeps_root_port s i config")
    case True
    then have "stp_handle_config_packet k w i wire =
        ((fst (change_to_non_root w))\<lparr> stp := s1 \<rparr>, snd (change_to_non_root w))"
      by (simp add: better)
    then show ?thesis
      using True
      by (simp add: s_def [symmetric] config_def [symmetric] s1_i change_to_non_root_sent
          update_config_info_def) (simp add: s1_def received_on_simps)
  next
    case False
    then have "stp_handle_config_packet k w i wire =
        ((fst (change_to_non_root w))\<lparr> stp := s2 \<rparr>,
            snd (change_to_non_root w) @ snd (change_root_port k s1 i config))"
      by (simp add: better)
    then show ?thesis
      using False s2_other
      by (simp add: s_def [symmetric] config_def [symmetric] s2_i s2_fields s1_sw
          sent_configs_append change_to_non_root_sent s2_sent update_config_info_def)
  qed
qed

text \<open>
  The test is made on the ports as they are after the overwrite. When the BPDU arrives
  on the root port itself, the root port's stored quadruple is by then the BPDU's
  own, the comparison is a tie and the test succeeds, whatever the BPDU.
\<close>

lemma keeps_on_root_port:
  assumes "root_port s = Some i" and "i < length (ports s)"
  shows "keeps_root_port s i config"
  using assms by (simp add: keeps_root_port_def received_on_def get_port_priority_self)


section \<open>The mOSPF daemon\<close>

subsection \<open>Hello from a known neighbour\<close>

lemma refresh_nbr_known:
  assumes "rid \<in> nbr_id ` set nbrs"
  shows "\<exists>n < length nbrs. nbr_id (nbrs ! n) = rid \<and> (\<forall>m < n. nbr_id (nbrs ! m) \<noteq> rid)
           \<and> refresh_nbr timeout rid nbrs = Some (nbrs[n := (nbrs ! n)\<lparr> alive := timeout \<rparr>])"
  using assms
proof (induction nbrs)
  case Nil
  then show ?case by simp
next
  case (Cons nbr rest)
  show ?case
  proof (cases "nbr_id nbr = rid")
    case True
    then have "0 < length (nbr # rest) \<and> nbr_id ((nbr # rest) ! 0) = rid
        \<and> (\<forall>m < 0. nbr_id ((nbr # rest) ! m) \<noteq> rid)
        \<and> refresh_nbr timeout rid (nbr # rest)
            = Some ((nbr # rest)[0 := ((nbr # rest) ! 0)\<lparr> alive := timeout \<rparr>])"
      by simp
    then show ?thesis by blast
  next
    case False
    then have "rid \<in> nbr_id ` set rest" using Cons.prems by auto
    from Cons.IH [OF this] obtain n where n: "n < length rest" "nbr_id (rest ! n) = rid"
      "\<forall>m < n. nbr_id (rest ! m) \<noteq> rid"
      "refresh_nbr timeout rid rest = Some (rest[n := (rest ! n)\<lparr> alive := timeout \<rparr>])"
      by blast
    have "\<forall>m < Suc n. nbr_id ((nbr # rest) ! m) \<noteq> rid"
    proof (intro allI impI)
      fix m assume "m < Suc n"
      then show "nbr_id ((nbr # rest) ! m) \<noteq> rid"
        using False n(3) by (cases m) simp_all
    qed
    then have "Suc n < length (nbr # rest) \<and> nbr_id ((nbr # rest) ! Suc n) = rid
        \<and> (\<forall>m < Suc n. nbr_id ((nbr # rest) ! m) \<noteq> rid)
        \<and> refresh_nbr timeout rid (nbr # rest)
            = Some ((nbr # rest)[Suc n := ((nbr # rest) ! Suc n)\<lparr> alive := timeout \<rparr>])"
      using False n(1,2,4) by simp
    then show ?thesis by blast
  qed
qed

text \<open>
  C10. A Hello that arrives on interface \<open>i\<close> from a router id already in that
  interface's neighbour list resets the \<open>alive\<close> field of the first neighbour with
  that id to \<open>MOSPF_NEIGHBOR_TIMEOUT\<close> and changes nothing else: the stored addresses
  and masks, \<open>num_nbr\<close>, the other interfaces, \<open>nbr_changed\<close>, the link-state
  database and the routing table stay as they are, whatever source address and mask
  the packet carries.
\<close>

theorem C10:
  assumes "i < length (iface_list (ustack w))"
    and "ntohl (mospf_rid packet) \<in> nbr_id ` set (nbr_list (iface_list (ustack w) ! i))"
  shows "let iface = iface_list (ustack w) ! i;
             nbrs = nbr_list iface;
             w' = handle_mospf_hello h w i packet;
             iface' = iface_list (ustack w') ! i
         in (\<exists>n < length nbrs.
               nbr_id (nbrs ! n) = ntohl (mospf_rid packet)
             \<and> (\<forall>m < n. nbr_id (nbrs ! m) \<noteq> ntohl (mospf_rid packet))
             \<and> nbr_list iface' = nbrs[n := (nbrs ! n)\<lparr> alive := MOSPF_NEIGHBOR_TIMEOUT h \<rparr>])
          \<and> map nbr_id (nbr_list iface') = map nbr_id nbrs
          \<and> map nbr_ip (nbr_list iface') = map nbr_ip nbrs
          \<and> map nbr_mask (nbr_list iface') = map nbr_mask nbrs
          \<and> iface' = iface\<lparr> nbr_list := nbr_list iface' \<rparr>
          \<and> num_nbr iface' = num_nbr iface
          \<and> w' = w\<lparr> ustack := (ustack w)\<lparr> iface_list := (iface_list (ustack w))[i := iface'] \<rparr> \<rparr>
          \<and> nbr_changed w' = nbr_changed w
          \<and> mospf_db w' = mospf_db w
          \<and> rtable w' = rtable w"
proof -
  define nbrs where "nbrs = nbr_list (iface_list (ustack w) ! i)"
  define rid where "rid = ntohl (mospf_rid packet)"
  define t where "t = MOSPF_NEIGHBOR_TIMEOUT h"
  have "rid \<in> nbr_id ` set nbrs" using assms(2) by (simp add: nbrs_def rid_def)
  from refresh_nbr_known [OF this, of t]
  obtain n where n: "n < length nbrs" "nbr_id (nbrs ! n) = rid"
    "\<forall>m < n. nbr_id (nbrs ! m) \<noteq> rid"
    "refresh_nbr t rid nbrs = Some (nbrs[n := (nbrs ! n)\<lparr> alive := t \<rparr>])"
    by blast
  have h: "handle_mospf_hello h w i packet =
      w\<lparr> ustack := (ustack w)\<lparr> iface_list := (iface_list (ustack w))
          [i := (iface_list (ustack w) ! i)\<lparr> nbr_list := nbrs[n := (nbrs ! n)\<lparr> alive := t \<rparr>] \<rparr>] \<rparr> \<rparr>"
    using n(4) by (simp add: handle_mospf_hello_def Let_def nbrs_def rid_def t_def)
  have maps: "map nbr_id (nbrs[n := (nbrs ! n)\<lparr> alive := t \<rparr>]) = map nbr_id nbrs"
    "map nbr_ip (nbrs[n := (nbrs ! n)\<lparr> alive := t \<rparr>]) = map nbr_ip nbrs"
    "map nbr_mask (nbrs[n := (nbrs ! n)\<lparr> alive := t \<rparr>]) = map nbr_mask nbrs"
    using n(1) by (simp_all add: map_update list_update_same_conv)
  have ex: "\<exists>n < length nbrs. nbr_id (nbrs ! n) = rid \<and> (\<forall>m < n. nbr_id (nbrs ! m) \<noteq> rid)
      \<and> nbrs[n := (nbrs ! n)\<lparr> alive := t \<rparr>] = nbrs[n := (nbrs ! n)\<lparr> alive := t \<rparr>]"
    using n(1,2,3) by blast
  show ?thesis
    unfolding Let_def h nbrs_def [symmetric] rid_def [symmetric] t_def [symmetric]
    using assms(1) n(1,2,3) maps
    by (auto simp add: nbrs_def [symmetric])
qed

text \<open>
  The witness of C10: a Hello from neighbour \<open>10.0.1.2\<close> with another source address
  and another mask.
\<close>

theorem C10_witness:
  "0 < length (iface_list (ustack (example_router 0 [])))
   \<and> ntohl (mospf_rid (example_hello 0x0A000102 0x0A000163 0xFFFF0000))
       \<in> nbr_id ` set (nbr_list (iface_list (ustack (example_router 0 [])) ! 0))
   \<and> map nbr_ip (nbr_list (iface_list (ustack (handle_mospf_hello example_host
         (example_router 0 []) 0 (example_hello 0x0A000102 0x0A000163 0xFFFF0000))) ! 0))
       = [0x0A000102]
   \<and> map nbr_mask (nbr_list (iface_list (ustack (handle_mospf_hello example_host
         (example_router 0 []) 0 (example_hello 0x0A000102 0x0A000163 0xFFFF0000))) ! 0))
       = [0xFFFFFF00]
   \<and> map alive (nbr_list (iface_list (ustack (handle_mospf_hello example_host
         (example_router 0 []) 0 (example_hello 0x0A000102 0x0A000163 0xFFFF0000))) ! 0))
       = [15]
   \<and> nbr_changed (handle_mospf_hello example_host
         (example_router 0 []) 0 (example_hello 0x0A000102 0x0A000163 0xFFFF0000)) = 0"
proof -
  let ?w = "example_router 0 []"
  let ?p = "example_hello 0x0A000102 0x0A000163 0xFFFF0000"
  have len: "0 < length (iface_list (ustack ?w))" by code_simp
  have rid: "ntohl (mospf_rid ?p) = 0x0A000102" by code_simp
  have nbrs: "nbr_list (iface_list (ustack ?w) ! 0) = [example_nbr 0x0A000102]" by code_simp
  have known: "ntohl (mospf_rid ?p) \<in> nbr_id ` set (nbr_list (iface_list (ustack ?w) ! 0))"
    by (simp only: rid nbrs) (simp add: example_nbr_def)
  have old: "map nbr_ip [example_nbr 0x0A000102] = [0x0A000102]"
    "map nbr_mask [example_nbr 0x0A000102] = [0xFFFFFF00]"
    "nbr_changed ?w = 0" "MOSPF_NEIGHBOR_TIMEOUT example_host = 15"
    by (simp_all add: example_nbr_def example_router_def example_host_def)
  have "map nbr_ip (nbr_list (iface_list (ustack (handle_mospf_hello example_host ?w 0 ?p)) ! 0))
        = [0x0A000102]
      \<and> map nbr_mask (nbr_list (iface_list (ustack (handle_mospf_hello example_host ?w 0 ?p)) ! 0))
        = [0xFFFFFF00]
      \<and> map alive (nbr_list (iface_list (ustack (handle_mospf_hello example_host ?w 0 ?p)) ! 0))
        = [15]
      \<and> nbr_changed (handle_mospf_hello example_host ?w 0 ?p) = 0"
    using C10 [OF len known, of example_host]
    by (simp add: Let_def nbrs old rid) (auto simp add: less_Suc_eq example_nbr_def)
  with len known show ?thesis by (intro conjI) simp_all
qed

subsection \<open>Shortest paths without a local entry\<close>

lemma find_self_db_absent:
  "rid \<notin> db_rid ` set dbs \<Longrightarrow>
   foldl (\<lambda>self_db db. if db_rid db = rid then Some db else self_db) acc dbs = acc"
  by (induction dbs arbitrary: acc) auto

text \<open>
  C9. When no entry of the link-state database has the local router id,
  \<open>generate_rt\<close> returns with the routing table empty: it has cleared and initialised
  the table before it looks for the local entry, and it adds no route.
\<close>

theorem C9:
  assumes "router_id (ustack w) \<notin> db_rid ` set (mospf_db w)"
  shows "generate_rt h w = Inr (w\<lparr> rtable := [] \<rparr>)"
  using assms
  by (simp add: generate_rt_def Let_def find_self_db_def find_self_db_absent
      init_rtable_def clear_rtable_def)

text \<open>
  The witness of C9: a database that knows the neighbour only, and a routing table
  with one row before the pass.
\<close>

theorem C9_witness:
  "router_id (ustack (example_router 0 [stored_entry 3]))
     \<notin> db_rid ` set (mospf_db (example_router 0 [stored_entry 3]))
   \<and> rtable (example_router 0 [stored_entry 3]) \<noteq> []
   \<and> generate_rt example_host (example_router 0 [stored_entry 3])
       = Inr ((example_router 0 [stored_entry 3])\<lparr> rtable := [] \<rparr>)"
proof -
  have absent: "router_id (ustack (example_router 0 [stored_entry 3]))
     \<notin> db_rid ` set (mospf_db (example_router 0 [stored_entry 3]))"
    by (simp add: example_router_def stored_entry_def)
  have "rtable (example_router 0 [stored_entry 3]) \<noteq> []"
    by (simp add: example_router_def)
  with absent C9 [OF absent, of example_host] show ?thesis by (intro conjI)
qed

subsection \<open>LSU ingestion\<close>

lemma find_db_None: "find_db rid dbs = None \<longleftrightarrow> rid \<notin> db_rid ` set dbs"
  by (induction dbs) auto

lemma find_db_first:
  assumes "rid \<in> db_rid ` set dbs"
  shows "\<exists>n < length dbs. find_db rid dbs = Some n \<and> db_rid (dbs ! n) = rid
           \<and> (\<forall>m < n. db_rid (dbs ! m) \<noteq> rid)"
  using assms
proof (induction dbs)
  case Nil
  then show ?case by simp
next
  case (Cons db rest)
  show ?case
  proof (cases "db_rid db = rid")
    case True
    then have "0 < length (db # rest) \<and> find_db rid (db # rest) = Some 0
        \<and> db_rid ((db # rest) ! 0) = rid \<and> (\<forall>m < 0. db_rid ((db # rest) ! m) \<noteq> rid)"
      by simp
    then show ?thesis by blast
  next
    case False
    then have "rid \<in> db_rid ` set rest" using Cons.prems by auto
    from Cons.IH [OF this] obtain n where n: "n < length rest" "find_db rid rest = Some n"
      "db_rid (rest ! n) = rid" "\<forall>m < n. db_rid (rest ! m) \<noteq> rid"
      by blast
    have "\<forall>m < Suc n. db_rid ((db # rest) ! m) \<noteq> rid"
    proof (intro allI impI)
      fix m assume "m < Suc n"
      then show "db_rid ((db # rest) ! m) \<noteq> rid"
        using False n(4) by (cases m) simp_all
    qed
    then have "Suc n < length (db # rest) \<and> find_db rid (db # rest) = Some (Suc n)
        \<and> db_rid ((db # rest) ! Suc n) = rid \<and> (\<forall>m < Suc n. db_rid ((db # rest) ! m) \<noteq> rid)"
      using False n(1,2,3) by simp
    then show ?thesis by blast
  qed
qed

lemma flood_nbrs_returns:
  assumes "unat nadv \<le> length (lsu_lsas packet)"
  shows "\<exists>packet' sent. flood_nbrs h nadv j iface_tmp packet nbrs = Some (packet', sent)
           \<and> lsu_lsas packet' = lsu_lsas packet"
  using assms
proof (induction nbrs arbitrary: packet)
  case Nil
  then show ?case by simp
next
  case (Cons nbr rest)
  let ?p = "packet\<lparr> ether_shost := iface_mac iface_tmp \<rparr>"
  have "unat nadv \<le> length (lsu_lsas ?p)" using Cons.prems by simp
  from Cons.IH [OF this] obtain packet' sent where
    r: "flood_nbrs h nadv j iface_tmp ?p rest = Some (packet', sent)"
       "lsu_lsas packet' = lsu_lsas ?p"
    by blast
  show ?case
    using Cons.prems r by (simp add: clone_packet_def Let_def)
qed

lemma flood_ifaces_returns:
  assumes "unat nadv \<le> length (lsu_lsas packet)"
  shows "\<exists>packet' sent. flood_ifaces h nadv i j packet ifaces = Some (packet', sent)
           \<and> lsu_lsas packet' = lsu_lsas packet"
  using assms
proof (induction ifaces arbitrary: packet j)
  case Nil
  then show ?case by simp
next
  case (Cons iface_tmp rest)
  obtain p1 s1 where
    a: "(if j \<noteq> i then flood_nbrs h nadv j iface_tmp packet (nbr_list iface_tmp)
         else Some (packet, [])) = Some (p1, s1)"
    and l1: "lsu_lsas p1 = lsu_lsas packet"
    using flood_nbrs_returns [OF Cons.prems, of h j iface_tmp "nbr_list iface_tmp"]
    by (cases "j = i") auto
  have "unat nadv \<le> length (lsu_lsas p1)" using Cons.prems l1 by simp
  from Cons.IH [OF this, of "Suc j"] obtain p2 s2 where
    b: "flood_ifaces h nadv i (Suc j) p1 rest = Some (p2, s2)" "lsu_lsas p2 = lsu_lsas p1"
    by blast
  have "flood_ifaces h nadv i j packet (iface_tmp # rest) = Some (p2, s1 @ s2)"
    using b(1) by (simp only: flood_ifaces.simps a option.case prod.case)
  then show ?case using b(2) l1 by simp
qed

lemma sint_small:
  fixes w :: u32
  assumes "w < 0x80000000"
  shows "sint w = uint w"
proof -
  have "uint w < 2 ^ 31" using assms by (simp add: word_less_alt)
  moreover have "- (2 ^ 31) \<le> uint w"
    by (rule order_trans [of _ 0]) simp_all
  ultimately have "signed_take_bit 31 (uint w) = uint w"
    by (rule signed_take_bit_int_eq_self [rotated])
  then show ?thesis by (simp add: sint_uint)
qed

lemma decode_count_small:
  assumes "nadv < 0x80000000"
  shows "decode_count nadv = unat nadv"
proof (cases "nadv = 0")
  case True
  then show ?thesis by (simp add: decode_count_def)
next
  case False
  then have "uint nadv \<noteq> 0" by (simp add: uint_0_iff)
  moreover have "0 \<le> uint nadv" by simp
  ultimately have "0 < uint nadv" by linarith
  then have "0 < sint nadv" by (simp only: sint_small [OF assms])
  then show ?thesis by (simp only: decode_count_def if_True)
qed

lemma lookup_or_insert:
  "\<exists>n < length (inserted_db fresh rid dbs).
      (case find_db rid dbs of
         Some n \<Rightarrow> (dbs, n)
       | None \<Rightarrow> (dbs @ [fresh\<lparr> db_rid := rid, db_seq := 0 \<rparr>], length dbs))
        = (inserted_db fresh rid dbs, n)
    \<and> db_rid (inserted_db fresh rid dbs ! n) = rid
    \<and> (\<forall>m < n. db_rid (inserted_db fresh rid dbs ! m) \<noteq> rid)
    \<and> (rid \<notin> db_rid ` set dbs \<longrightarrow> n = length dbs \<and> db_seq (inserted_db fresh rid dbs ! n) = 0)"
proof (cases "rid \<in> db_rid ` set dbs")
  case True
  from find_db_first [OF this] obtain n where n: "n < length dbs" "find_db rid dbs = Some n"
    "db_rid (dbs ! n) = rid" "\<forall>m < n. db_rid (dbs ! m) \<noteq> rid"
    by blast
  then show ?thesis using True by (auto simp add: inserted_db_def)
next
  case False
  then have none: "find_db rid dbs = None" by (simp add: find_db_None)
  have "\<forall>m < length dbs. db_rid ((dbs @ [fresh\<lparr> db_rid := rid, db_seq := 0 \<rparr>]) ! m) \<noteq> rid"
    using False by (auto simp add: nth_append)
  then have "length dbs < length (inserted_db fresh rid dbs)
      \<and> (case find_db rid dbs of
           Some n \<Rightarrow> (dbs, n)
         | None \<Rightarrow> (dbs @ [fresh\<lparr> db_rid := rid, db_seq := 0 \<rparr>], length dbs))
          = (inserted_db fresh rid dbs, length dbs)
      \<and> db_rid (inserted_db fresh rid dbs ! length dbs) = rid
      \<and> (\<forall>m < length dbs. db_rid (inserted_db fresh rid dbs ! m) \<noteq> rid)
      \<and> (rid \<notin> db_rid ` set dbs \<longrightarrow>
            length dbs = length dbs \<and> db_seq (inserted_db fresh rid dbs ! length dbs) = 0)"
    using False none by (simp add: inserted_db_def)
  then show ?thesis by blast
qed

text \<open>
  C3. For an LSU whose buffer holds the LSAs its header announces (fewer than
  \<open>2^31\<close>): the entry \<open>n\<close> the handler works on is the first one with the sender's
  router id in the database after the lookup, which is the entry inserted at the tail
  with sequence number 0 when there was none. If the packet's sequence number is not
  greater than the stored one, the handler returns that database, the packet as it
  came and no frame sent. If it is greater, the handler returns, and in the database
  entry \<open>n\<close> has the packet's sequence number, its count and its LSAs converted to
  host order, every other entry being unchanged.
\<close>

theorem C3:
  assumes "unat (ntohl (lsu_nadv packet)) \<le> length (lsu_lsas packet)"
    and "ntohl (lsu_nadv packet) < 0x80000000"
  shows "let rid = ntohl (mospf_rid packet);
             seq = ntohs (lsu_seq packet);
             nadv = ntohl (lsu_nadv packet);
             dbs = inserted_db fresh rid (mospf_db w);
             result = handle_mospf_lsu h fresh w i packet
         in \<exists>n < length dbs.
              db_rid (dbs ! n) = rid
            \<and> (\<forall>m < n. db_rid (dbs ! m) \<noteq> rid)
            \<and> (rid \<notin> db_rid ` set (mospf_db w) \<longrightarrow>
                  n = length (mospf_db w) \<and> db_seq (dbs ! n) = 0)
            \<and> (seq \<le> db_seq (dbs ! n) \<longrightarrow>
                  result = Some (w\<lparr> mospf_db := dbs \<rparr>, packet, []))
            \<and> (db_seq (dbs ! n) < seq \<longrightarrow>
                  (\<exists>packet' sent.
                     result = Some (w\<lparr> mospf_db := dbs
                         [n := (dbs ! n)\<lparr> db_seq := seq, db_nadv := nadv,
                                 db_array := map lsa_ntoh (take (unat nadv) (lsu_lsas packet)) \<rparr>] \<rparr>,
                       packet', sent)))"
proof -
  define rid where "rid = ntohl (mospf_rid packet)"
  define seq where "seq = ntohs (lsu_seq packet)"
  define nadv where "nadv = ntohl (lsu_nadv packet)"
  define dbs where "dbs = inserted_db fresh rid (mospf_db w)"
  from lookup_or_insert [of fresh rid "mospf_db w"]
  obtain n where n: "n < length dbs"
    "(case find_db rid (mospf_db w) of
         Some n \<Rightarrow> (mospf_db w, n)
       | None \<Rightarrow> (mospf_db w @ [fresh\<lparr> db_rid := rid, db_seq := 0 \<rparr>], length (mospf_db w)))
        = (dbs, n)"
    "db_rid (dbs ! n) = rid" "\<forall>m < n. db_rid (dbs ! m) \<noteq> rid"
    "rid \<notin> db_rid ` set (mospf_db w) \<longrightarrow> n = length (mospf_db w) \<and> db_seq (dbs ! n) = 0"
    unfolding dbs_def by blast
  have dec: "decode_lsas (decode_count nadv) (lsu_lsas packet)
      = Some (map lsa_ntoh (take (unat nadv) (lsu_lsas packet)))"
    using assms by (simp add: decode_lsas_def decode_count_small nadv_def)
  define db' where "db' = (dbs ! n)\<lparr> db_seq := seq, db_nadv := nadv,
      db_array := map lsa_ntoh (take (unat nadv) (lsu_lsas packet)) \<rparr>"
  define p1 where "p1 = packet\<lparr> lsu_ttl := lsu_ttl packet - 1 \<rparr>"
  define p2 where "p2 = p1\<lparr> ip_ttl := ip_ttl p1 - 1 \<rparr>"
  define p3 where "p3 = p2\<lparr> mospf_hdr_checksum := mospf_checksum h p2 \<rparr>"
  have "unat nadv \<le> length (lsu_lsas p3)"
    using assms(1) by (simp add: p3_def p2_def p1_def nadv_def)
  from flood_ifaces_returns [OF this, of h i 0 "iface_list (ustack w)"]
  obtain packet' sent where
    fl: "flood_ifaces h nadv i 0 p3 (iface_list (ustack w)) = Some (packet', sent)"
    by blast
  have unfolded: "handle_mospf_lsu h fresh w i packet =
      (if db_seq (dbs ! n) < seq
       then Some (w\<lparr> mospf_db := dbs[n := db'] \<rparr>, packet', sent)
       else Some (w\<lparr> mospf_db := dbs \<rparr>, packet, []))"
    unfolding handle_mospf_lsu_def Let_def rid_def [symmetric] n(2) prod.case
      seq_def [symmetric] nadv_def [symmetric] dec option.case
    by (simp add: db'_def p1_def [symmetric] p2_def [symmetric] p3_def [symmetric] fl)
  have le_case: "seq \<le> db_seq (dbs ! n) \<longrightarrow>
      handle_mospf_lsu h fresh w i packet = Some (w\<lparr> mospf_db := dbs \<rparr>, packet, [])"
  proof
    assume "seq \<le> db_seq (dbs ! n)"
    then have "\<not> db_seq (dbs ! n) < seq" by simp
    then show "handle_mospf_lsu h fresh w i packet = Some (w\<lparr> mospf_db := dbs \<rparr>, packet, [])"
      by (simp only: unfolded if_False)
  qed
  have lt_case: "db_seq (dbs ! n) < seq \<longrightarrow>
      (\<exists>packet' sent. handle_mospf_lsu h fresh w i packet
          = Some (w\<lparr> mospf_db := dbs[n := db'] \<rparr>, packet', sent))"
  proof
    assume "db_seq (dbs ! n) < seq"
    then have "handle_mospf_lsu h fresh w i packet
        = Some (w\<lparr> mospf_db := dbs[n := db'] \<rparr>, packet', sent)"
      by (simp only: unfolded if_True)
    then show "\<exists>packet' sent. handle_mospf_lsu h fresh w i packet
        = Some (w\<lparr> mospf_db := dbs[n := db'] \<rparr>, packet', sent)"
      by (intro exI)
  qed
  have "n < length dbs
      \<and> db_rid (dbs ! n) = rid
      \<and> (\<forall>m < n. db_rid (dbs ! m) \<noteq> rid)
      \<and> (rid \<notin> db_rid ` set (mospf_db w) \<longrightarrow>
            n = length (mospf_db w) \<and> db_seq (dbs ! n) = 0)
      \<and> (seq \<le> db_seq (dbs ! n) \<longrightarrow>
            handle_mospf_lsu h fresh w i packet = Some (w\<lparr> mospf_db := dbs \<rparr>, packet, []))
      \<and> (db_seq (dbs ! n) < seq \<longrightarrow>
            (\<exists>packet' sent. handle_mospf_lsu h fresh w i packet
                = Some (w\<lparr> mospf_db := dbs[n := db'] \<rparr>, packet', sent)))"
    by (intro conjI; fact n(1) n(3) n(4) n(5) le_case lt_case)
  then show ?thesis
    unfolding Let_def rid_def [symmetric] seq_def [symmetric] nadv_def [symmetric]
      dbs_def [symmetric] db'_def
    by (rule exI [of _ n])
qed

text \<open>
  The witness of C3: the database holds sequence number 5 for the sender; an LSU with
  sequence number 5 changes nothing and sends nothing, one with sequence number 6
  replaces the entry.
\<close>

theorem C3_witness:
  "unat (ntohl (lsu_nadv (example_lsu 0x0A000102 5 example_lsas)))
     \<le> length (lsu_lsas (example_lsu 0x0A000102 5 example_lsas))
   \<and> ntohl (lsu_nadv (example_lsu 0x0A000102 5 example_lsas)) < 0x80000000
   \<and> handle_mospf_lsu example_host raw_db_entry (example_router 0 [stored_entry 5]) 0
         (example_lsu 0x0A000102 5 example_lsas)
       = Some (example_router 0 [stored_entry 5], example_lsu 0x0A000102 5 example_lsas, [])
   \<and> unat (ntohl (lsu_nadv (example_lsu 0x0A000102 6 example_lsas)))
     \<le> length (lsu_lsas (example_lsu 0x0A000102 6 example_lsas))
   \<and> ntohl (lsu_nadv (example_lsu 0x0A000102 6 example_lsas)) < 0x80000000
   \<and> map_option (\<lambda>r. mospf_db (fst r))
         (handle_mospf_lsu example_host raw_db_entry (example_router 0 [stored_entry 5]) 0
            (example_lsu 0x0A000102 6 example_lsas))
       = Some [\<lparr> db_rid = 0x0A000102, db_seq = 6, db_nadv = 1, db_array = example_lsas \<rparr>]"
proof -
  let ?w = "example_router 0 [stored_entry 5]"
  let ?p5 = "example_lsu 0x0A000102 5 example_lsas"
  let ?p6 = "example_lsu 0x0A000102 6 example_lsas"
  have fits5: "unat (ntohl (lsu_nadv ?p5)) \<le> length (lsu_lsas ?p5)" by code_simp
  have small5: "ntohl (lsu_nadv ?p5) < 0x80000000" by code_simp
  have fits6: "unat (ntohl (lsu_nadv ?p6)) \<le> length (lsu_lsas ?p6)" by code_simp
  have small6: "ntohl (lsu_nadv ?p6) < 0x80000000" by code_simp
  have vals: "ntohl (mospf_rid ?p5) = 0x0A000102" "ntohs (lsu_seq ?p5) = 5"
    "ntohl (mospf_rid ?p6) = 0x0A000102" "ntohs (lsu_seq ?p6) = 6"
    "ntohl (lsu_nadv ?p6) = 1"
    "map lsa_ntoh (take (Suc 0) (lsu_lsas ?p6)) = example_lsas"
    by code_simp+
  define dbs where "dbs = inserted_db raw_db_entry 0x0A000102 (mospf_db ?w)"
  have dbs: "dbs = [stored_entry 5]"
    by (simp add: dbs_def inserted_db_def example_router_def stored_entry_def)
  have same: "?w\<lparr> mospf_db := [stored_entry 5] \<rparr> = ?w"
    by (simp add: example_router_def)
  have sv: "db_seq (stored_entry 5) = 5" by (simp add: stored_entry_def)
  from C3 [OF fits5 small5, of raw_db_entry ?w example_host 0]
  obtain n where n: "n < length dbs"
    "ntohs (lsu_seq ?p5) \<le> db_seq (dbs ! n) \<longrightarrow>
       handle_mospf_lsu example_host raw_db_entry ?w 0 ?p5 = Some (?w\<lparr> mospf_db := dbs \<rparr>, ?p5, [])"
    unfolding Let_def vals(1) dbs_def [symmetric]
    by (elim exE conjE) (rule that, assumption+)
  have "n = 0" using n(1) by (simp add: dbs)
  then have a: "handle_mospf_lsu example_host raw_db_entry ?w 0 ?p5 = Some (?w, ?p5, [])"
    using n(2) by (simp add: vals dbs same sv)
  from C3 [OF fits6 small6, of raw_db_entry ?w example_host 0]
  obtain m where m: "m < length dbs"
    "db_seq (dbs ! m) < ntohs (lsu_seq ?p6) \<longrightarrow>
       (\<exists>packet' sent. handle_mospf_lsu example_host raw_db_entry ?w 0 ?p6
          = Some (?w\<lparr> mospf_db := dbs[m := (dbs ! m)\<lparr> db_seq := ntohs (lsu_seq ?p6),
               db_nadv := ntohl (lsu_nadv ?p6),
               db_array := map lsa_ntoh (take (unat (ntohl (lsu_nadv ?p6))) (lsu_lsas ?p6)) \<rparr>] \<rparr>,
             packet', sent))"
    unfolding Let_def vals(3) dbs_def [symmetric]
    by (elim exE conjE) (rule that, assumption+)
  have "m = 0" using m(1) by (simp add: dbs)
  then have "\<exists>packet' sent. handle_mospf_lsu example_host raw_db_entry ?w 0 ?p6
      = Some (?w\<lparr> mospf_db := [(stored_entry 5)\<lparr> db_seq := 6, db_nadv := 1,
           db_array := example_lsas \<rparr>] \<rparr>, packet', sent)"
    using m(2) by (simp add: vals dbs sv)
  then have b: "map_option (\<lambda>r. mospf_db (fst r))
      (handle_mospf_lsu example_host raw_db_entry ?w 0 ?p6)
      = Some [\<lparr> db_rid = 0x0A000102, db_seq = 6, db_nadv = 1, db_array = example_lsas \<rparr>]"
    by (auto simp add: stored_entry_def)
  show ?thesis
    by (intro conjI; fact fits5 small5 a fits6 small6 b)
qed

subsection \<open>LSU emission\<close>

lemma ntohs_htons: "ntohs (htons x) = x"
  unfolding htons_def ntohs_def
  by (rule bit_word_eqI) (auto simp add: bit_simps)

lemma sequence_num_grows:
  fixes x :: u16
  assumes "x \<noteq> 0xFFFF"
  shows "x < x + 1"
proof -
  have "x + 1 \<noteq> 0"
  proof
    assume "x + 1 = 0"
    then have "x = - 1" by (rule max_word_wrap)
    with assms show False by simp
  qed
  then have "unat (1 + x) = Suc (unat x)"
    using unatSuc [of x] by (simp add: add.commute)
  then show ?thesis by (simp add: word_less_nat_alt add.commute)
qed

lemma to_int_id: "- (2 ^ 31) \<le> x \<Longrightarrow> x < 2 ^ 31 \<Longrightarrow> to_int x = x"
  unfolding to_int_def by (rule signed_take_bit_int_eq_self)

lemma lsa_slots_length:
  assumes "num_nbr iface = int (length (nbr_list iface))"
  shows "lsa_slots iface = int (length (iface_lsas iface))"
  using assms by (simp add: lsa_slots_def iface_lsas_def)

lemma count_loop:
  assumes "\<forall>iface \<in> set ifaces. num_nbr iface = int (length (nbr_list iface))"
    and "0 \<le> acc"
    and "acc + int (length (concat (map iface_lsas ifaces))) < 2 ^ 31"
  shows "foldl (\<lambda>nadv iface. to_int (nadv + (if num_nbr iface = 0 then 1 else num_nbr iface)))
           acc ifaces = acc + int (length (concat (map iface_lsas ifaces)))"
  using assms
proof (induction ifaces arbitrary: acc)
  case Nil
  then show ?case by simp
next
  case (Cons iface rest)
  have slots: "(if num_nbr iface = 0 then 1 else num_nbr iface) = int (length (iface_lsas iface))"
    using lsa_slots_length [of iface] Cons.prems(1) by (simp add: lsa_slots_def)
  define acc' where "acc' = acc + int (length (iface_lsas iface))"
  have bounds: "0 \<le> acc'" "acc' < 2 ^ 31"
    "acc' + int (length (concat (map iface_lsas rest))) < 2 ^ 31"
    using Cons.prems(2,3) by (simp_all add: acc'_def)
  have "to_int acc' = acc'"
    using bounds(1,2) by (intro to_int_id) simp_all
  then have step: "to_int (acc + (if num_nbr iface = 0 then 1 else num_nbr iface)) = acc'"
    by (simp only: slots acc'_def)
  have "\<forall>iface \<in> set rest. num_nbr iface = int (length (nbr_list iface))"
    using Cons.prems(1) by simp
  from Cons.IH [OF this bounds(1) bounds(3)] show ?case
    by (simp only: foldl_Cons step) (simp add: acc'_def)
qed

lemma count_nadv_length:
  assumes "\<forall>iface \<in> set ifaces. num_nbr iface = int (length (nbr_list iface))"
    and "length (concat (map iface_lsas ifaces)) < 2 ^ 31"
  shows "count_nadv ifaces = int (length (concat (map iface_lsas ifaces)))"
proof -
  have "(0::int) + int (length (concat (map iface_lsas ifaces))) < 2 ^ 31"
    using assms(2) by simp
  from count_loop [OF assms(1) order_refl this] show ?thesis
    by (simp add: count_nadv_def)
qed

lemma send_to_all_seq:
  assumes "s \<in> set (send_to_all h packet ifaces)"
  shows "lsu_seq (snd (snd s)) = lsu_seq packet"
  using assms by (auto simp add: send_to_all_def send_to_nbr_def Let_def)

lemma make_lsu_packet_seq:
  "lsu_seq (make_lsu_packet h raw inst lsa_list nadv) = htons (sequence_num inst)"
  by (simp add: make_lsu_packet_def Let_def)

text \<open>
  C4, as the code has it. On a router whose \<open>num_nbr\<close> counters agree with its
  neighbour lists, an emission returns, \<open>instance.sequence_num\<close> is incremented once
  modulo \<open>2^16\<close> (so it grows unless it was 65535), and every LSU transmitted carries
  the incremented sequence number.
\<close>

theorem C4:
  assumes "\<forall>iface \<in> set (iface_list (ustack w)). num_nbr iface = int (length (nbr_list iface))"
    and "length (concat (map iface_lsas (iface_list (ustack w)))) < 2 ^ 31"
  shows "\<exists>w' sent. lsu_emission h raw w = Some (w', sent)
           \<and> sequence_num (ustack w') = sequence_num (ustack w) + 1
           \<and> (sequence_num (ustack w) \<noteq> 0xFFFF \<longrightarrow>
                 sequence_num (ustack w) < sequence_num (ustack w'))
           \<and> (\<forall>s \<in> set sent. ntohs (lsu_seq (snd (snd s))) = sequence_num (ustack w'))"
proof -
  define ifaces where "ifaces = iface_list (ustack w)"
  define lsa_list where "lsa_list = concat (map iface_lsas ifaces)"
  define nadv where "nadv = count_nadv ifaces"
  define inst where "inst = (ustack w)\<lparr> sequence_num := sequence_num (ustack w) + 1 \<rparr>"
  define w' where "w' = w\<lparr> nbr_changed := 0,
      mospf_db := upsert_self (ustack w) lsa_list nadv (mospf_db w), ustack := inst \<rparr>"
  define packet where "packet = make_lsu_packet h raw inst lsa_list nadv"
  have count: "int (length lsa_list) = nadv"
    using count_nadv_length [of ifaces] assms
    by (simp add: ifaces_def lsa_list_def nadv_def)
  have inst_ifaces: "iface_list inst = ifaces"
    by (simp add: inst_def ifaces_def)
  have em: "lsu_emission h raw w = Some (w', send_to_all h packet ifaces)"
    using count inst_ifaces
    by (simp add: lsu_emission_def Let_def ifaces_def [symmetric] lsa_list_def [symmetric]
        nadv_def [symmetric] inst_def [symmetric] packet_def [symmetric] w'_def)
  have seq': "sequence_num (ustack w') = sequence_num (ustack w) + 1"
    by (simp add: w'_def inst_def)
  have grows: "sequence_num (ustack w) \<noteq> 0xFFFF \<longrightarrow>
      sequence_num (ustack w) < sequence_num (ustack w')"
    unfolding seq' by (intro impI sequence_num_grows)
  have wire: "\<forall>s \<in> set (send_to_all h packet ifaces).
      ntohs (lsu_seq (snd (snd s))) = sequence_num (ustack w')"
  proof
    fix s assume "s \<in> set (send_to_all h packet ifaces)"
    then have "lsu_seq (snd (snd s)) = lsu_seq packet" by (rule send_to_all_seq)
    also have "\<dots> = htons (sequence_num inst)"
      by (simp only: packet_def make_lsu_packet_seq)
    finally show "ntohs (lsu_seq (snd (snd s))) = sequence_num (ustack w')"
      by (simp add: ntohs_htons w'_def)
  qed
  have "lsu_emission h raw w = Some (w', send_to_all h packet ifaces)
      \<and> sequence_num (ustack w') = sequence_num (ustack w) + 1
      \<and> (sequence_num (ustack w) \<noteq> 0xFFFF \<longrightarrow>
            sequence_num (ustack w) < sequence_num (ustack w'))
      \<and> (\<forall>s \<in> set (send_to_all h packet ifaces).
            ntohs (lsu_seq (snd (snd s))) = sequence_num (ustack w'))"
    by (intro conjI; fact em seq' grows wire)
  then show ?thesis by (intro exI)
qed

text \<open>
  The witness of C4: with sequence number 7 the router sends two LSUs, both with
  sequence number 8.
\<close>

theorem C4_witness:
  "list_all (\<lambda>iface. num_nbr iface = int (length (nbr_list iface)))
     (iface_list (ustack (example_router 7 [])))
   \<and> length (concat (map iface_lsas (iface_list (ustack (example_router 7 []))))) < 2 ^ 31
   \<and> sequence_num (ustack (example_router 7 [])) = 7
   \<and> map_option (\<lambda>r. sequence_num (ustack (fst r)))
        (lsu_emission example_host (example_lsu 0 0 []) (example_router 7 [])) = Some 8
   \<and> map_option (\<lambda>r. map (\<lambda>s. ntohs (lsu_seq (snd (snd s)))) (snd r))
        (lsu_emission example_host (example_lsu 0 0 []) (example_router 7 [])) = Some [8, 8]"
proof -
  let ?w = "example_router 7 []"
  have counts: "list_all (\<lambda>iface. num_nbr iface = int (length (nbr_list iface)))
      (iface_list (ustack ?w))"
    by (simp add: example_router_def example_iface_def)
  then have hyp1: "\<forall>iface \<in> set (iface_list (ustack ?w)).
      num_nbr iface = int (length (nbr_list iface))"
    by (simp only: list_all_iff)
  have hyp2: "length (concat (map iface_lsas (iface_list (ustack ?w)))) < 2 ^ 31"
    by (simp add: example_router_def example_iface_def iface_lsas_def)
  have seq: "sequence_num (ustack ?w) = 7" by (simp add: example_router_def)
  have n: "length (snd (the (lsu_emission example_host (example_lsu 0 0 []) ?w))) = 2"
    by code_simp
  from C4 [OF hyp1 hyp2, of example_host "example_lsu 0 0 []"]
  obtain w' sent where r: "lsu_emission example_host (example_lsu 0 0 []) ?w = Some (w', sent)"
    "sequence_num (ustack w') = sequence_num (ustack ?w) + 1"
    "\<forall>s \<in> set sent. ntohs (lsu_seq (snd (snd s))) = sequence_num (ustack w')"
    by blast
  have len: "length sent = 2" using n by (simp add: r(1))
  have s8: "sequence_num (ustack w') = 8" using r(2) by (simp add: seq)
  have "map (\<lambda>s. ntohs (lsu_seq (snd (snd s)))) sent = [8, 8]"
  proof (rule nth_equalityI)
    show "length (map (\<lambda>s. ntohs (lsu_seq (snd (snd s)))) sent) = length [8 :: u16, 8]"
      using len by simp
  next
    fix i assume "i < length (map (\<lambda>s. ntohs (lsu_seq (snd (snd s)))) sent)"
    then have i: "i < 2" using len by simp
    then have "sent ! i \<in> set sent" using len by simp
    then have "ntohs (lsu_seq (snd (snd (sent ! i)))) = 8" using r(3) s8 by simp
    moreover have "[8 :: u16, 8] ! i = 8" using i by (cases i) simp_all
    ultimately show "map (\<lambda>s. ntohs (lsu_seq (snd (snd s)))) sent ! i = [8, 8] ! i"
      using i len by simp
  qed
  then have "map_option (\<lambda>r. sequence_num (ustack (fst r)))
        (lsu_emission example_host (example_lsu 0 0 []) ?w) = Some 8
      \<and> map_option (\<lambda>r. map (\<lambda>s. ntohs (lsu_seq (snd (snd s)))) (snd r))
        (lsu_emission example_host (example_lsu 0 0 []) ?w) = Some [8, 8]"
    using s8 by (simp add: r(1))
  with counts hyp2 seq show ?thesis by (intro conjI) simp_all
qed

text \<open>
  The counterexample to C4 as stated: with sequence number 65535 the emission leaves
  \<open>sequence_num\<close> at 0, which is smaller, and the local database entry at 65535,
  which is not the sequence number of the instance nor the one sent.
\<close>

theorem C4_counterexample:
  "sequence_num (ustack (example_router 0xFFFF [])) = 0xFFFF
   \<and> map_option (\<lambda>r. (sequence_num (ustack (fst r)),
                       map db_rid (mospf_db (fst r)), map db_seq (mospf_db (fst r)),
                       map (\<lambda>s. ntohs (lsu_seq (snd (snd s)))) (snd r)))
        (lsu_emission example_host (example_lsu 0 0 []) (example_router 0xFFFF []))
       = Some (0, [0x0A000101], [0xFFFF], [0, 0])"
  by code_simp

subsection \<open>Flooding\<close>

text \<open>
  C5 (code defect). The claim: every clone of a flooded LSU carries the MAC address
  of the interface it leaves on as its Ethernet source. The flooding loop writes that
  address through \<open>eth\<close>, which points into the received buffer, after the clone has
  been copied. The LSU that arrives on interface 0 of the example router is flooded
  on interface 1 with the Ethernet source it arrived with, not with the address of
  interface 1.
\<close>

theorem C5_failing_input:
  "map_option (\<lambda>r. map (\<lambda>s. (fst s, ether_shost (snd (snd s)))) (snd (snd r)))
     (handle_mospf_lsu example_host raw_db_entry (example_router 0 []) 0
        (example_lsu 0x0A000102 1 example_lsas))
     = Some [(1, [0, 0, 0, 0, 1, 2])]
   \<and> iface_mac (iface_list (ustack (example_router 0 [])) ! 1) = [0, 0, 0, 0, 0, 2]
   \<and> ether_shost (example_lsu 0x0A000102 1 example_lsas) = [0, 0, 0, 0, 1, 2]"
  by code_simp

subsection \<open>The adjacency matrix\<close>

text \<open>
  C6 (code defect). The claim: an LSA whose router id matches no database entry adds
  no edge and every write \<open>graph[k][j] = 1\<close> is inside the matrix. The column search
  ends with \<open>j = rnum\<close> when nothing matches and the write follows without a test.
  For a router whose only entry is its own, with one stub LSA, the matrix is 1 by 1
  and the write is \<open>graph[0][1]\<close>.
\<close>

theorem C6_failing_input:
  "graph_writes (mospf_db (example_stub_router 1 [stub_entry])) = [(0, 1)]
   \<and> length (mospf_db (example_stub_router 1 [stub_entry])) = 1
   \<and> generate_rt example_host (example_stub_router 1 [stub_entry])
       = Inl (Graph_write_out_of_bounds 0 1)"
  by code_simp

end
